theory Spec2Isabelle
  imports Complex_Main
begin

section \<open>The clock\<close>

text \<open>
  A JavaScript \<open>Date\<close> is an instant: a number of milliseconds since the epoch
  (\<open>getTime()\<close>). The strings written by \<open>toISOString()\<close> and read back by \<open>parseISO\<close>
  denote the same instant, and two such strings compare (\<open>>=\<close>, \<open><=\<close>) as their instants do,
  so the model stores the instant where the source stores the string.

  The user's time zone is a parameter \<open>tz\<close> of every function that reads the local clock.
  It is what the JavaScript runtime knows of the zone, in its two directions: \<open>offset tz t\<close>
  is the offset in force at the instant \<open>t\<close>, in milliseconds, so that the local time of
  \<open>t\<close> is \<open>t + offset tz t\<close>; and \<open>instant_of tz l\<close> is the instant the runtime gives to
  the local time \<open>l\<close> when a date is set from local fields (\<open>setDate\<close>, \<open>setHours\<close>, the
  \<open>Date\<close> constructor with a year, a month and a day). The offset may differ from instant to
  instant, as it does across a daylight-saving change. \<open>fixed_zone c\<close> is the zone
  whose offset is \<open>c\<close> at every instant.

  \<open>format d 'yyyy-MM-dd'\<close> and \<open>toDateString()\<close> print the local calendar day of an instant,
  each in a way that tells any two days apart; the source only compares these strings for
  equality, and the model keeps the number of the day (days since 1970-01-01, local).
  \<open>startOfDay\<close> and \<open>endOfDay\<close> of date-fns set the local time to 00:00:00.000 and to
  23:59:59.999 of the day.
\<close>

type_synonym instant = int

record zone =
  offset :: "instant \<Rightarrow> int"
  instant_of :: "int \<Rightarrow> instant"

definition fixed_zone :: "int \<Rightarrow> zone" where
  "fixed_zone c = \<lparr>offset = (\<lambda>t. c), instant_of = (\<lambda>l. l - c)\<rparr>"

definition msPerDay :: int where
  "msPerDay = 24 * 60 * 60 * 1000"

definition local_day :: "zone \<Rightarrow> instant \<Rightarrow> int" where
  "local_day tz t = (t + offset tz t) div msPerDay"

definition startOfDay :: "zone \<Rightarrow> instant \<Rightarrow> instant" where
  "startOfDay tz t = instant_of tz (local_day tz t * msPerDay)"

definition endOfDay :: "zone \<Rightarrow> instant \<Rightarrow> instant" where
  "endOfDay tz t = instant_of tz (local_day tz t * msPerDay + msPerDay - 1)"

section \<open>The service: prayer log and streak\<close>

text \<open>
  \<open>Prayer\<close> and \<open>PrayerStreak\<close> of \<open>types/prayer.ts\<close>, with the fields the streak and the
  statistics read. \<open>duration_minutes\<close> is written by \<open>Math.round\<close> and is an integer when
  present; \<open>last_prayer_date\<close> is optional in the source.
\<close>

record Prayer =
  prayer_name :: string
  logged_at :: instant
  duration_minutes :: "int option"

record PrayerStreak =
  current_streak :: int
  longest_streak :: int
  last_prayer_date :: "instant option"
  total_prayers :: int

text \<open>The \<open>name\<close> fields of the constant \<open>DAILY_PRAYERS\<close>.\<close>

definition DAILY_PRAYERS :: "string list" where
  "DAILY_PRAYERS = [''Fajr'', ''Dhuhr'', ''Asr'', ''Maghrib'', ''Isha'']"

text \<open>
  The two collections of one user behind \<open>blink.db\<close> and its \<open>localStorage\<close> fallback:
  the prayers, newest first, and the streak record, absent until it is first read.
\<close>

record store =
  prayers :: "Prayer list"
  streak :: "PrayerStreak option"

definition getTodaysPrayers :: "zone \<Rightarrow> instant \<Rightarrow> store \<Rightarrow> Prayer list" where
  "getTodaysPrayers tz now st =
     (let startOfToday = startOfDay tz now;
          endOfToday = endOfDay tz now
      in filter (\<lambda>prayer. logged_at prayer \<ge> startOfToday \<and> logged_at prayer \<le> endOfToday)
           (prayers st))"

definition getTotalPrayerCount :: "store \<Rightarrow> int" where
  "getTotalPrayerCount st = int (length (prayers st))"

definition defaultStreak :: PrayerStreak where
  "defaultStreak = \<lparr>current_streak = 0, longest_streak = 0, last_prayer_date = None,
     total_prayers = 0\<rparr>"

definition getOrCreateStreak :: "store \<Rightarrow> PrayerStreak \<times> store" where
  "getOrCreateStreak st =
     (case streak st of
        Some existingStreak \<Rightarrow> (existingStreak, st)
      | None \<Rightarrow> (defaultStreak, st\<lparr>streak := Some defaultStreak\<rparr>))"

text \<open>\<open>new Set(xs).size\<close>: the number of distinct elements.\<close>

definition set_size :: "'a list \<Rightarrow> nat" where
  "set_size xs = length (remdups xs)"

text \<open>
  \<open>updateStreak\<close>, at the instant \<open>now\<close>. Where a call to \<open>blink.db\<close> fails the source
  turns to \<open>localStorage\<close>; the store stands for whichever of the two holds the data, and
  reading and writing it do not fail. A day that is not complete leaves the record as it
  is.
\<close>

definition updateStreak :: "zone \<Rightarrow> instant \<Rightarrow> store \<Rightarrow> store" where
  "updateStreak tz now st0 =
     (let (streak0, st) = getOrCreateStreak st0;
          todaysPrayers = getTodaysPrayers tz now st;
          totalPrayers = getTotalPrayerCount st;
          completedToday = (set_size (map prayer_name todaysPrayers) = 5)
      in if completedToday then
           (let today = local_day tz now;
                newCurrentStreak =
                  (case last_prayer_date streak0 of
                     Some lastPrayerDate \<Rightarrow>
                       (let lastDate = local_day tz lastPrayerDate;
                            yesterday = local_day tz (now - 24 * 60 * 60 * 1000)
                        in if lastDate = yesterday then current_streak streak0 + 1
                           else if lastDate \<noteq> today then 1
                           else current_streak streak0)
                   | None \<Rightarrow> 1);
                newLongestStreak = max (longest_streak streak0) newCurrentStreak
            in st\<lparr>streak := Some (streak0\<lparr>current_streak := newCurrentStreak,
                                            longest_streak := newLongestStreak,
                                            last_prayer_date := Some now,
                                            total_prayers := totalPrayers\<rparr>)\<rparr>)
         else st)"

text \<open>
  \<open>Math.round\<close> rounds to the nearest integer, a half upwards. The model computes on the
  reals where the source computes on doubles: the quotients rounded here have small integer
  numerators and denominators, far from the precision at which the two differ.
\<close>

definition Math_round :: "real \<Rightarrow> int" where
  "Math_round x = \<lfloor>x + 1 / 2\<rfloor>"

text \<open>
  \<open>logPrayer\<close> puts the new prayer in front of the others and then updates the streak;
  \<open>startTime\<close> and \<open>endTime\<close> are the optional arguments of the timer.
\<close>

definition logPrayer ::
  "zone \<Rightarrow> instant \<Rightarrow> string \<Rightarrow> instant option \<Rightarrow> instant option \<Rightarrow> store \<Rightarrow> Prayer \<times> store"
where
  "logPrayer tz now prayerName startTime endTime st =
     (let durationMinutes =
            (case (startTime, endTime) of
               (Some s, Some e) \<Rightarrow> Some (Math_round (real_of_int (e - s) / (1000 * 60)))
             | _ \<Rightarrow> None);
          prayer = \<lparr>prayer_name = prayerName, logged_at = now,
                    duration_minutes = durationMinutes\<rparr>;
          st1 = st\<lparr>prayers := prayer # prayers st\<rparr>
      in (prayer, updateStreak tz now st1))"


section \<open>The service: statistics\<close>

text \<open>
  \<open>getDay()\<close> is 0 on a Sunday and 6 on a Saturday; 1 January 1970 was a Thursday.
  \<open>startOfWeek\<close> and \<open>endOfWeek\<close> of date-fns take Sunday as the first day: they move the
  date to the Sunday, or to the Saturday, and set the local time to the start, or to the end,
  of that day.
\<close>

definition getDay :: "zone \<Rightarrow> instant \<Rightarrow> int" where
  "getDay tz t = (local_day tz t + 4) mod 7"

definition startOfWeek :: "zone \<Rightarrow> instant \<Rightarrow> instant" where
  "startOfWeek tz t = instant_of tz ((local_day tz t - getDay tz t) * msPerDay)"

definition endOfWeek :: "zone \<Rightarrow> instant \<Rightarrow> instant" where
  "endOfWeek tz t =
     instant_of tz ((local_day tz t + (6 - getDay tz t)) * msPerDay + msPerDay - 1)"

text \<open>
  \<open>eachDayOfInterval\<close>: the local midnights of the days from the day of \<open>startDate\<close> to the
  day of \<open>endDate\<close>.
\<close>

definition eachDayOfInterval :: "zone \<Rightarrow> instant \<Rightarrow> instant \<Rightarrow> instant list" where
  "eachDayOfInterval tz startDate endDate =
     map (\<lambda>d. instant_of tz (d * msPerDay)) [local_day tz startDate .. local_day tz endDate]"

text \<open>\<open>format day 'EEE'\<close>: the short name of the day of the week.\<close>

definition format_EEE :: "zone \<Rightarrow> instant \<Rightarrow> string" where
  "format_EEE tz t =
     [''Sun'', ''Mon'', ''Tue'', ''Wed'', ''Thu'', ''Fri'', ''Sat''] ! nat (getDay tz t)"

record day_stats =
  date :: string
  completed :: nat
  total :: nat

record PrayerStats =
  totalPrayers :: nat
  currentStreak :: int
  longestStreak :: int
  averageDuration :: int
  completionRate :: int
  weeklyStats :: "day_stats list"

datatype error = AuthError | StorageError | TypeError

text \<open>
  A value is truthy unless it is \<open>undefined\<close>, \<open>0\<close> or \<open>NaN\<close>; \<open>p.duration_minutes || 0\<close>
  is the value when it is truthy and \<open>0\<close> otherwise.
\<close>

definition truthy :: "int option \<Rightarrow> bool" where
  "truthy v = (case v of None \<Rightarrow> False | Some n \<Rightarrow> n \<noteq> 0)"

definition or_zero :: "int option \<Rightarrow> int" where
  "or_zero v = (if truthy v then the v else 0)"

text \<open>
  The body of the \<open>try\<close> block of \<open>getPrayerStats\<close>, once \<open>getPrayerHistoryByDays(30)\<close> and
  \<open>getOrCreateStreak\<close> have delivered \<open>prayers\<close> and \<open>streak0\<close>.
\<close>

definition computeStats :: "zone \<Rightarrow> instant \<Rightarrow> Prayer list \<Rightarrow> PrayerStreak \<Rightarrow> PrayerStats" where
  "computeStats tz now prayers0 streak0 =
     (let totalPrayers0 = length prayers0;
          prayersWithDuration = filter (\<lambda>p. truthy (duration_minutes p)) prayers0;
          averageDuration0 =
            (if length prayersWithDuration > 0
             then real_of_int (foldl (\<lambda>sum p. sum + or_zero (duration_minutes p)) 0
                                 prayersWithDuration)
                  / real (length prayersWithDuration)
             else 0);
          weekStart = startOfWeek tz now;
          weekEnd = endOfWeek tz now;
          daysInWeek = eachDayOfInterval tz weekStart weekEnd;
          weeklyStats0 = map (\<lambda>day.
              (let dayStart = startOfDay tz day;
                   dayEnd = endOfDay tz day;
                   dayPrayers = filter (\<lambda>p. logged_at p \<ge> dayStart \<and> logged_at p \<le> dayEnd)
                                  prayers0;
                   uniquePrayers = map prayer_name dayPrayers
               in \<lparr>date = format_EEE tz day, completed = set_size uniquePrayers,
                    total = 5\<rparr>)) daysInWeek;
          completeDays = length (filter (\<lambda>day. completed day = 5) weeklyStats0);
          completionRate0 = (real completeDays / 7) * 100
      in \<lparr>totalPrayers = totalPrayers0,
          currentStreak = current_streak streak0,
          longestStreak = longest_streak streak0,
          averageDuration = Math_round averageDuration0,
          completionRate = Math_round completionRate0,
          weeklyStats = weeklyStats0\<rparr>)"

text \<open>The value built in the \<open>catch\<close> block.\<close>

definition defaultStats :: "zone \<Rightarrow> instant \<Rightarrow> PrayerStats" where
  "defaultStats tz now =
     (let weekStart = startOfWeek tz now;
          weekEnd = endOfWeek tz now;
          daysInWeek = eachDayOfInterval tz weekStart weekEnd;
          defaultWeeklyStats =
            map (\<lambda>day. \<lparr>date = format_EEE tz day, completed = 0, total = 5\<rparr>) daysInWeek
      in \<lparr>totalPrayers = 0, currentStreak = 0, longestStreak = 0, averageDuration = 0,
          completionRate = 0, weeklyStats = defaultWeeklyStats\<rparr>)"

text \<open>
  \<open>getPrayerStats\<close>. Its three awaited calls are arguments, each the value or the error
  the call ends with: \<open>me\<close> for \<open>getCurrentUserId()\<close>, which is awaited before the \<open>try\<close>,
  \<open>history\<close> for \<open>getPrayerHistoryByDays(30)\<close> and \<open>streakRecord\<close> for
  \<open>getOrCreateStreak(userId)\<close>, which are awaited together inside it.
\<close>

definition getPrayerStats ::
  "zone \<Rightarrow> instant \<Rightarrow> error + string \<Rightarrow> error + Prayer list \<Rightarrow> error + PrayerStreak
     \<Rightarrow> error + PrayerStats"
where
  "getPrayerStats tz now me history streakRecord =
     (case me of
        Inl e \<Rightarrow> Inl e
      | Inr userId \<Rightarrow>
          (case (history, streakRecord) of
             (Inr prayers0, Inr streak0) \<Rightarrow> Inr (computeStats tz now prayers0 streak0)
           | _ \<Rightarrow> Inr (defaultStats tz now)))"

section \<open>The service: reminders and the due-check\<close>

text \<open>
  \<open>PrayerReminder\<close> of \<open>types/prayer.ts\<close>: \<open>is_enabled\<close> is the string \<open>"0"\<close> or \<open>"1"\<close>,
  \<open>days_of_week\<close> the days separated by commas, 1 for Monday to 7 for Sunday.
\<close>

record PrayerReminder =
  reminder_id :: string
  prayer_name :: string
  reminder_time :: string
  is_enabled :: string
  days_of_week :: string

text \<open>
  \<open>n.toString()\<close> of a natural number, \<open>s.padStart(n, c)\<close>, and the local hour and minute
  of an instant. \<open>format now 'HH:mm'\<close> of date-fns prints both on two digits.
\<close>

definition digit_char :: "nat \<Rightarrow> char" where
  "digit_char n = ''0123456789'' ! n"

fun toString :: "nat \<Rightarrow> string" where
  "toString n = (if n < 10 then [digit_char n] else toString (n div 10) @ [digit_char (n mod 10)])"

declare toString.simps [simp del]

definition padStart :: "string \<Rightarrow> nat \<Rightarrow> char \<Rightarrow> string" where
  "padStart s n c = replicate (n - length s) c @ s"

definition getHours :: "zone \<Rightarrow> instant \<Rightarrow> nat" where
  "getHours tz t = nat (((t + offset tz t) div (60 * 60 * 1000)) mod 24)"

definition getMinutes :: "zone \<Rightarrow> instant \<Rightarrow> nat" where
  "getMinutes tz t = nat (((t + offset tz t) div (60 * 1000)) mod 60)"

definition format_HHmm :: "zone \<Rightarrow> instant \<Rightarrow> string" where
  "format_HHmm tz t =
     padStart (toString (getHours tz t)) 2 CHR ''0'' @ '':''
       @ padStart (toString (getMinutes tz t)) 2 CHR ''0''"

text \<open>\<open>s.split(',')\<close>: the fields between the commas; the empty string has one empty field.\<close>

fun split_comma :: "string \<Rightarrow> string list" where
  "split_comma [] = [[]]"
| "split_comma (c # cs) =
     (if c = CHR '','' then [] # split_comma cs
      else (case split_comma cs of
              [] \<Rightarrow> [[c]]
            | f # fs \<Rightarrow> (c # f) # fs))"

text \<open>
  \<open>parseInt(s)\<close> with no radix: white space is skipped, then a sign, then \<open>0x\<close> selects
  base 16, and the longest run of digits of the base is read; with no digit the result is
  \<open>NaN\<close>, here \<open>None\<close>. White space is the ASCII white space.
\<close>

definition is_space :: "char \<Rightarrow> bool" where
  "is_space c = (c \<in> set [CHR '' '', CHR 0x09, CHR 0x0A, CHR 0x0B, CHR 0x0C, CHR 0x0D])"

definition digit_value :: "char \<Rightarrow> nat option" where
  "digit_value c =
     map_of (zip ''0123456789abcdef'' [0 ..< 16] @ zip ''ABCDEF'' [10 ..< 16]) c"

definition is_digit_of :: "nat \<Rightarrow> char \<Rightarrow> bool" where
  "is_digit_of radix c = (case digit_value c of None \<Rightarrow> False | Some v \<Rightarrow> v < radix)"

definition digits_value :: "nat \<Rightarrow> string \<Rightarrow> nat" where
  "digits_value radix ds = foldl (\<lambda>a c. a * radix + the (digit_value c)) 0 ds"

definition parseInt :: "string \<Rightarrow> int option" where
  "parseInt s =
     (let s1 = dropWhile is_space s;
          negative = (take 1 s1 = ''-'');
          s2 = (if take 1 s1 = ''-'' \<or> take 1 s1 = ''+'' then drop 1 s1 else s1);
          hex = (take 2 s2 = ''0x'' \<or> take 2 s2 = ''0X'');
          radix = (if hex then 16 else 10);
          s3 = (if hex then drop 2 s2 else s2);
          ds = takeWhile (is_digit_of radix) s3
      in if ds = [] then None
         else Some ((if negative then - 1 else 1) * int (digits_value radix ds)))"

text \<open>
  \<open>Number(s)\<close>: white space at both ends is dropped; what is left is \<open>0\<close> when it is empty,
  and the number written when it is a sign, or none, and decimal digits. The other forms of a
  number (a fraction, an exponent, a radix prefix, \<open>Infinity\<close>) are not modelled: such a
  string is given \<open>NaN\<close>, here \<open>None\<close>, as a string that writes no number is. The
  statements below are about reminders whose \<open>is_enabled\<close> is \<open>"0"\<close> or \<open>"1"\<close>.
\<close>

definition Number :: "string \<Rightarrow> int option" where
  "Number s =
     (let t = dropWhile is_space (rev (dropWhile is_space (rev s)));
          negative = (take 1 t = ''-'');
          u = (if take 1 t = ''-'' \<or> take 1 t = ''+'' then drop 1 t else t)
      in if t = [] then Some 0
         else if u \<noteq> [] \<and> list_all (is_digit_of 10) u
         then Some ((if negative then - 1 else 1) * int (digits_value 10 u))
         else None)"

text \<open>
  \<open>checkForDueReminders\<close>. \<open>now.getDay() || 7\<close> turns Sunday's 0 into 7, and
  \<open>daysOfWeek.includes(currentDay)\<close> never finds a \<open>NaN\<close>.
\<close>

definition checkForDueReminders :: "zone \<Rightarrow> instant \<Rightarrow> PrayerReminder list \<Rightarrow> PrayerReminder list"
where
  "checkForDueReminders tz now reminders =
     (let currentTime = format_HHmm tz now;
          currentDay = (if getDay tz now = 0 then 7 else getDay tz now)
      in filter (\<lambda>reminder.
           if Number (is_enabled reminder) = Some 0 then False
           else (let daysOfWeek = map parseInt (split_comma (days_of_week reminder))
                 in if Some currentDay \<notin> set daysOfWeek then False
                    else reminder_time reminder = currentTime)) reminders)"

text \<open>
  How a set of days is written into \<open>days_of_week\<close>: the numbers of the days, each one digit,
  with a comma between two of them; \<open>createReminder\<close> writes \<open>"1,2,3,4,5,6,7"\<close>.
\<close>

fun join_comma :: "string list \<Rightarrow> string" where
  "join_comma [] = []"
| "join_comma [f] = f"
| "join_comma (f # g # fs) = f @ '','' @ join_comma (g # fs)"

definition days_string :: "nat list \<Rightarrow> string" where
  "days_string ds = join_comma (map toString ds)"

section \<open>The hook \<open>usePrayerData\<close>\<close>

text \<open>
  The hook keeps its own logs, reminders and streak in component state, mirrored to
  \<open>localStorage\<close>. Its \<open>PrayerStreak\<close> has no count of prayers, and \<open>lastPrayerDate\<close> is the
  \<open>toDateString()\<close> of a day, or the empty string at the start (\<open>None\<close>).
\<close>

record PrayerLog =
  prayerName :: string
  loggedAt :: instant
  durationMinutes :: "int option"

record hook_PrayerStreak =
  currentStreak :: int
  longestStreak :: int
  lastPrayerDate :: "int option"

record hook_state =
  prayerLogs :: "PrayerLog list"
  streak :: hook_PrayerStreak

definition hook_initial :: hook_state where
  "hook_initial =
     \<lparr>prayerLogs = [],
      streak = \<lparr>currentStreak = 0, longestStreak = 0, lastPrayerDate = None\<rparr>\<rparr>"

text \<open>
  \<open>updateStreak\<close> of the hook reads the logs and the streak of the state in which
  \<open>logPrayer\<close> was called, and adds the name being logged to today's names.
\<close>

definition usePrayerData_updateStreak ::
  "zone \<Rightarrow> instant \<Rightarrow> string \<Rightarrow> hook_state \<Rightarrow> hook_PrayerStreak"
where
  "usePrayerData_updateStreak tz now name h =
     (let today = local_day tz now;
          todayLogs = filter (\<lambda>log. local_day tz (loggedAt log) = today) (prayerLogs h);
          todayPrayers = map PrayerLog.prayerName todayLogs @ [name]
      in if set_size todayPrayers = 5 then
           \<lparr>currentStreak = hook_PrayerStreak.currentStreak (hook_state.streak h) + 1,
            longestStreak = max (hook_PrayerStreak.longestStreak (hook_state.streak h))
                                (hook_PrayerStreak.currentStreak (hook_state.streak h) + 1),
            lastPrayerDate = Some today\<rparr>
         else hook_state.streak h)"

definition usePrayerData_logPrayer ::
  "zone \<Rightarrow> instant \<Rightarrow> string \<Rightarrow> int option \<Rightarrow> hook_state \<Rightarrow> hook_state"
where
  "usePrayerData_logPrayer tz now name duration h =
     (let newLog = \<lparr>prayerName = name, loggedAt = now, durationMinutes = duration\<rparr>;
          updatedLogs = newLog # prayerLogs h
      in \<lparr>prayerLogs = updatedLogs,
          streak = usePrayerData_updateStreak tz now name h\<rparr>)"

text \<open>
  \<open>getMostPrayedTime\<close>. \<open>prayerCounts\<close> is an object used as a dictionary; its entries are
  listed in the order in which the keys were first written, which is the order of
  \<open>Object.entries\<close> for keys that are not array indices, as prayer names are. \<open>reduce\<close>
  without a start value throws a \<open>TypeError\<close> on an empty array. An entry's second component
  is the count stored under its key, which is what the comparison reads.
\<close>

fun count_up :: "string \<Rightarrow> (string \<times> nat) list \<Rightarrow> (string \<times> nat) list" where
  "count_up k [] = [(k, 1)]"
| "count_up k ((k', c) # kvs) =
     (if k = k' then (k', c + 1) # kvs else (k', c) # count_up k kvs)"

definition prayerCounts :: "PrayerLog list \<Rightarrow> (string \<times> nat) list" where
  "prayerCounts logs = foldl (\<lambda>acc log. count_up (PrayerLog.prayerName log) acc) [] logs"

definition usePrayerData_getMostPrayedTime :: "PrayerLog list \<Rightarrow> error + string" where
  "usePrayerData_getMostPrayedTime logs =
     (case prayerCounts logs of
        [] \<Rightarrow> Inl TypeError
      | e # es \<Rightarrow>
          (let best = foldl (\<lambda>a b. if snd a > snd b then a else b) e es
           in Inr (if fst best = [] then ''None'' else fst best)))"

record monthly_stats =
  totalPrayers :: nat
  averagePerDay :: real
  mostPrayedTime :: string
  totalDuration :: int

text \<open>
  \<open>getMonthlyStats\<close>. \<open>monthAgo\<close> is local midnight of the same day one calendar month
  earlier; the lengths of the months are not modelled, and the instant is an argument.
\<close>

definition usePrayerData_getMonthlyStats :: "instant \<Rightarrow> hook_state \<Rightarrow> error + monthly_stats" where
  "usePrayerData_getMonthlyStats monthAgo h =
     (let monthlyLogs = filter (\<lambda>log. loggedAt log \<ge> monthAgo) (prayerLogs h)
      in case usePrayerData_getMostPrayedTime monthlyLogs of
           Inl e \<Rightarrow> Inl e
         | Inr name \<Rightarrow>
             Inr \<lparr>totalPrayers = length monthlyLogs,
                  averagePerDay = real (length monthlyLogs) / 30,
                  mostPrayedTime = name,
                  totalDuration =
                    foldl (\<lambda>sum log. sum + or_zero (durationMinutes log)) 0 monthlyLogs\<rparr>)"

section \<open>The hook \<open>useNotifications\<close>\<close>

record hook_PrayerReminder =
  id_ :: string
  prayerName :: string
  reminderTime :: string
  isEnabled :: bool

text \<open>
  \<open>checkReminders\<close> walks the reminders in order. \<open>notifiedToday\<close> is the set kept in the
  ref; the result is the list of reminders handed to \<open>showNotification\<close>, in order, and the
  set after the walk.
\<close>

fun checkReminders_forEach ::
  "string \<Rightarrow> hook_PrayerReminder list \<Rightarrow> string set \<Rightarrow> hook_PrayerReminder list \<times> string set"
where
  "checkReminders_forEach currentTime [] notifiedToday = ([], notifiedToday)"
| "checkReminders_forEach currentTime (reminder # rest) notifiedToday =
     (if \<not> isEnabled reminder then checkReminders_forEach currentTime rest notifiedToday
      else (let reminderKey = hook_PrayerReminder.prayerName reminder @ ''_'' @ currentTime
            in if reminderTime reminder = currentTime \<and> reminderKey \<notin> notifiedToday
               then (let (shown, notified') =
                           checkReminders_forEach currentTime rest
                             (insert reminderKey notifiedToday)
                     in (reminder # shown, notified'))
               else checkReminders_forEach currentTime rest notifiedToday))"

definition checkReminders ::
  "zone \<Rightarrow> instant \<Rightarrow> hook_PrayerReminder list \<Rightarrow> string set \<Rightarrow> hook_PrayerReminder list \<times> string set"
where
  "checkReminders tz now reminders notifiedToday =
     (let currentTime = padStart (toString (getHours tz now)) 2 CHR ''0'' @ '':''
                          @ padStart (toString (getMinutes tz now)) 2 CHR ''0''
      in checkReminders_forEach currentTime reminders notifiedToday)"

text \<open>
  The timers of the hook as events: a due-check (every minute, and once more whenever the
  reminders change) with the instant and the reminders it sees, and the reset, which empties
  the set. A run returns every notification shown, with the time of its due-check.
\<close>

datatype event = Check instant "hook_PrayerReminder list" | Reset

fun run :: "zone \<Rightarrow> event list \<Rightarrow> string set \<Rightarrow> (hook_PrayerReminder \<times> instant) list" where
  "run tz [] notifiedToday = []"
| "run tz (Reset # evs) notifiedToday = run tz evs {}"
| "run tz (Check now reminders # evs) notifiedToday =
     (let (shown, notified') = checkReminders tz now reminders notifiedToday
      in map (\<lambda>r. (r, now)) shown @ run tz evs notified')"






section \<open>The streak records that can arise\<close>

text \<open>
  The streak record of the service starts as the record \<open>getOrCreateStreak\<close> creates and
  changes only through \<open>updateStreak\<close>, whatever the prayers in the store and the clock
  are. The streak of the hook starts as the initial state of \<open>usePrayerData\<close> and changes
  only through its \<open>updateStreak\<close>.
\<close>

inductive reachable_streak :: "PrayerStreak \<Rightarrow> bool" where
  created: "reachable_streak defaultStreak"
| updated: "reachable_streak s \<Longrightarrow> store.streak st = Some s \<Longrightarrow>
     store.streak (updateStreak tz now st) = Some s' \<Longrightarrow> reachable_streak s'"

inductive hook_reachable_streak :: "hook_PrayerStreak \<Rightarrow> bool" where
  initial: "hook_reachable_streak (hook_state.streak hook_initial)"
| updated: "hook_reachable_streak (hook_state.streak h) \<Longrightarrow>
     hook_reachable_streak (usePrayerData_updateStreak tz now name h)"

section \<open>The words of the specification\<close>




text \<open>
  The day of the week counted from Monday, 1, to Sunday, 7.
\<close>

definition day_of_week :: "zone \<Rightarrow> instant \<Rightarrow> int" where
  "day_of_week tz t = (local_day tz t + 3) mod 7 + 1"

section \<open>Sample data\<close>

text \<open>
  A user one hour east of Greenwich. The instant 216000000 is 13:00 on local day 2, a
  Saturday; the five prayers of \<open>day2_five\<close> were logged between 09:00 and 13:00 of that
  day.
\<close>

definition day2_five :: "Prayer list" where
  "day2_five =
     [\<lparr>Prayer.prayer_name = ''Isha'', logged_at = 216000000, duration_minutes = None\<rparr>,
      \<lparr>Prayer.prayer_name = ''Maghrib'', logged_at = 212400000, duration_minutes = Some 7\<rparr>,
      \<lparr>Prayer.prayer_name = ''Asr'', logged_at = 208800000, duration_minutes = None\<rparr>,
      \<lparr>Prayer.prayer_name = ''Dhuhr'', logged_at = 205200000, duration_minutes = Some 4\<rparr>,
      \<lparr>Prayer.prayer_name = ''Fajr'', logged_at = 201600000, duration_minutes = Some 0\<rparr>]"

text \<open>The streak was last advanced at 21:00 on local day 1.\<close>

definition store_day1 :: store where
  "store_day1 = \<lparr>prayers = day2_five,
     store.streak = Some \<lparr>current_streak = 3, longest_streak = 5,
                       last_prayer_date = Some 158400000, total_prayers = 12\<rparr>\<rparr>"

text \<open>
  A user in Berlin in the spring of 2024. Summer time began at the instant 1711846800000,
  01:00 UTC on 31 March 2024, which is local day 19813: the offset is one hour before that
  instant and two hours from it on. The local times from 02:00 to 03:00 of that day, which
  no instant has, are read with the offset in force before the change, as the runtime reads
  them.
\<close>

definition berlin_2024 :: zone where
  "berlin_2024 =
     \<lparr>offset = (\<lambda>t. if t < 1711846800000 then 3600000 else 7200000),
      instant_of = (\<lambda>l. if l < 1711854000000 then l - 3600000 else l - 7200000)\<rparr>"

text \<open>
  The store of that user at 00:30 on 1 April 2024, the instant 1711924200000. The five
  prayers were logged on 31 March, between 06:00 and 21:00, which was the first complete
  day and made the streak 1; and the five prayers are logged again on 1 April, between
  00:10 and 00:30.
\<close>

definition store_1_april :: store where
  "store_1_april =
     \<lparr>prayers =
        [\<lparr>Prayer.prayer_name = ''Isha'', logged_at = 1711924200000, duration_minutes = None\<rparr>,
         \<lparr>Prayer.prayer_name = ''Maghrib'', logged_at = 1711923900000, duration_minutes = None\<rparr>,
         \<lparr>Prayer.prayer_name = ''Asr'', logged_at = 1711923600000, duration_minutes = None\<rparr>,
         \<lparr>Prayer.prayer_name = ''Dhuhr'', logged_at = 1711923300000, duration_minutes = None\<rparr>,
         \<lparr>Prayer.prayer_name = ''Fajr'', logged_at = 1711923000000, duration_minutes = None\<rparr>,
         \<lparr>Prayer.prayer_name = ''Isha'', logged_at = 1711911600000, duration_minutes = None\<rparr>,
         \<lparr>Prayer.prayer_name = ''Maghrib'', logged_at = 1711904400000, duration_minutes = None\<rparr>,
         \<lparr>Prayer.prayer_name = ''Asr'', logged_at = 1711893600000, duration_minutes = None\<rparr>,
         \<lparr>Prayer.prayer_name = ''Dhuhr'', logged_at = 1711882800000, duration_minutes = None\<rparr>,
         \<lparr>Prayer.prayer_name = ''Fajr'', logged_at = 1711857600000, duration_minutes = None\<rparr>],
      store.streak = Some \<lparr>current_streak = 1, longest_streak = 1,
                         last_prayer_date = Some 1711911600000, total_prayers = 5\<rparr>\<rparr>"

text \<open>
  The same user in the hook: from the initial state, the five prayers are logged on local
  day 2, at the same instants as in \<open>day2_five\<close>.
\<close>

definition hook_day2 :: hook_state where
  "hook_day2 =
     usePrayerData_logPrayer (fixed_zone 3600000) 216000000 ''Isha'' None
       (usePrayerData_logPrayer (fixed_zone 3600000) 212400000 ''Maghrib'' (Some 7)
         (usePrayerData_logPrayer (fixed_zone 3600000) 208800000 ''Asr'' None
           (usePrayerData_logPrayer (fixed_zone 3600000) 205200000 ''Dhuhr'' (Some 4)
             (usePrayerData_logPrayer (fixed_zone 3600000) 201600000 ''Fajr'' None hook_initial))))"

text \<open>
  A week later four prayers are logged on local day 9, the last at 12:00, and the streak of
  3 was last advanced on local day 2.
\<close>

definition hook_day9 :: hook_state where
  "hook_day9 =
     \<lparr>prayerLogs =
        [\<lparr>PrayerLog.prayerName = ''Maghrib'', loggedAt = 817200000, durationMinutes = None\<rparr>,
         \<lparr>PrayerLog.prayerName = ''Asr'', loggedAt = 813600000, durationMinutes = None\<rparr>,
         \<lparr>PrayerLog.prayerName = ''Dhuhr'', loggedAt = 810000000, durationMinutes = None\<rparr>,
         \<lparr>PrayerLog.prayerName = ''Fajr'', loggedAt = 806400000, durationMinutes = None\<rparr>],
      hook_state.streak = \<lparr>hook_PrayerStreak.currentStreak = 3,
                            hook_PrayerStreak.longestStreak = 3, lastPrayerDate = Some 2\<rparr>\<rparr>"

text \<open>
  The Fajr reminder as \<open>createReminder\<close> writes it, and an instant of the minute 05:30 of
  local day 2 for the user one hour east of Greenwich.
\<close>

definition fajr_reminder :: PrayerReminder where
  "fajr_reminder =
     \<lparr>reminder_id = ''reminder_1'', PrayerReminder.prayer_name = ''Fajr'',
      reminder_time = ''05:30'', is_enabled = ''1'', days_of_week = ''1,2,3,4,5,6,7''\<rparr>"

definition at_0530 :: instant where
  "at_0530 = 189015000"

text \<open>
  The five default reminders of the hook.
\<close>

definition default_reminders :: "hook_PrayerReminder list" where
  "default_reminders =
     [\<lparr>id_ = ''1'', hook_PrayerReminder.prayerName = ''Fajr'', reminderTime = ''05:30'',
       isEnabled = True\<rparr>,
      \<lparr>id_ = ''2'', hook_PrayerReminder.prayerName = ''Dhuhr'', reminderTime = ''12:30'',
       isEnabled = True\<rparr>,
      \<lparr>id_ = ''3'', hook_PrayerReminder.prayerName = ''Asr'', reminderTime = ''15:30'',
       isEnabled = True\<rparr>,
      \<lparr>id_ = ''4'', hook_PrayerReminder.prayerName = ''Maghrib'', reminderTime = ''18:30'',
       isEnabled = True\<rparr>,
      \<lparr>id_ = ''5'', hook_PrayerReminder.prayerName = ''Isha'', reminderTime = ''20:00'',
       isEnabled = True\<rparr>]"



text \<open>
  Two logs of one day in the hook, Fajr listed first, each name once.
\<close>

definition two_logs :: "PrayerLog list" where
  "two_logs =
     [\<lparr>PrayerLog.prayerName = ''Fajr'', loggedAt = 201600000, durationMinutes = None\<rparr>,
      \<lparr>PrayerLog.prayerName = ''Dhuhr'', loggedAt = 205200000, durationMinutes = None\<rparr>]"

chapter \<open>Properties\<close>

section \<open>A zone of fixed offset\<close>

text \<open>
  Where the offset of the zone is the same at every instant, the local clock is the instant
  shifted by the offset, and a local time is given the instant shifted back.
\<close>

lemma offset_fixed_zone [simp]: "offset (fixed_zone c) t = c"
  by (simp add: fixed_zone_def)

lemma instant_of_fixed_zone [simp]: "instant_of (fixed_zone c) l = l - c"
  by (simp add: fixed_zone_def)

lemma local_day_fixed: "local_day (fixed_zone tz) t = (t + tz) div msPerDay"
  by (simp add: local_day_def)

lemma startOfDay_fixed:
  "startOfDay (fixed_zone tz) t = local_day (fixed_zone tz) t * msPerDay - tz"
  by (simp add: startOfDay_def)

lemma endOfDay_fixed: "endOfDay (fixed_zone tz) t = startOfDay (fixed_zone tz) t + msPerDay - 1"
  by (simp add: endOfDay_def startOfDay_def)

lemma startOfWeek_fixed:
  "startOfWeek (fixed_zone tz) t
     = startOfDay (fixed_zone tz) t - getDay (fixed_zone tz) t * msPerDay"
  by (simp add: startOfWeek_def startOfDay_def algebra_simps)

lemma endOfWeek_fixed:
  "endOfWeek (fixed_zone tz) t
     = endOfDay (fixed_zone tz) t + (6 - getDay (fixed_zone tz) t) * msPerDay"
  by (simp add: endOfWeek_def endOfDay_def startOfDay_def algebra_simps)

lemma eachDayOfInterval_fixed:
  "eachDayOfInterval (fixed_zone tz) startDate endDate =
     map (\<lambda>d. d * msPerDay - tz)
       [local_day (fixed_zone tz) startDate .. local_day (fixed_zone tz) endDate]"
  by (simp add: eachDayOfInterval_def)

lemma getHours_fixed: "getHours (fixed_zone tz) t = nat (((t + tz) div (60 * 60 * 1000)) mod 24)"
  by (simp add: getHours_def)

lemma getMinutes_fixed: "getMinutes (fixed_zone tz) t = nat (((t + tz) div (60 * 1000)) mod 60)"
  by (simp add: getMinutes_def)



section \<open>The streak of the service\<close>

lemma local_day_yesterday:
  "local_day (fixed_zone tz) (now - 24 * 60 * 60 * 1000) = local_day (fixed_zone tz) now - 1"
  unfolding local_day_fixed msPerDay_def by simp

lemma set_size_card: "set_size xs = card (set xs)"
  by (simp add: set_size_def length_remdups_card_conv)

lemma completed_five:
  assumes "Prayer.prayer_name ` set ps \<subseteq> set DAILY_PRAYERS"
    and "set DAILY_PRAYERS \<subseteq> Prayer.prayer_name ` set ps"
  shows "set_size (map Prayer.prayer_name ps) = 5"
proof -
  have "Prayer.prayer_name ` set ps = set DAILY_PRAYERS" using assms by auto
  moreover have "card (set DAILY_PRAYERS) = 5" by (simp add: DAILY_PRAYERS_def)
  ultimately show ?thesis by (simp add: set_size_card)
qed

lemma today_store_day1: "getTodaysPrayers (fixed_zone 3600000) 216000000 store_day1 = day2_five"
  by (simp add: getTodaysPrayers_def store_day1_def day2_five_def startOfDay_fixed endOfDay_fixed
      local_day_fixed msPerDay_def)

text \<open>
  \<open>updateStreak\<close> takes for yesterday the local day of the instant 24 hours before now.
  Where that is the local day before today, as it is at every instant in a zone of fixed
  offset, a record last advanced on the day before today is advanced by 1 on a day with
  each of the five prayers logged, and \<open>longest_streak\<close> is the larger of its old value and
  the new \<open>current_streak\<close>.
\<close>

lemma service_consecutive_day_advances:
  assumes "store.streak st = Some s"
    and "last_prayer_date s = Some lastDate"
    and "local_day tz lastDate = local_day tz now - 1"
    and "local_day tz (now - 24 * 60 * 60 * 1000) = local_day tz now - 1"
    and "Prayer.prayer_name ` set (getTodaysPrayers tz now st) \<subseteq> set DAILY_PRAYERS"
    and "set DAILY_PRAYERS \<subseteq> Prayer.prayer_name ` set (getTodaysPrayers tz now st)"
  shows "\<exists>s'. store.streak (updateStreak tz now st) = Some s'
           \<and> current_streak s' = current_streak s + 1
           \<and> longest_streak s' = max (longest_streak s) (current_streak s')"
proof -
  have c: "set_size (map Prayer.prayer_name (getTodaysPrayers tz now st)) = 5"
    using assms(5,6) by (rule completed_five)
  have g: "getOrCreateStreak st = (s, st)"
    using assms(1) by (simp add: getOrCreateStreak_def)
  show ?thesis
    using c g assms(2,3,4)
    by (simp add: updateStreak_def Let_def)
qed

lemma service_consecutive_day_fixed_offset:
  "store.streak store_day1 = Some \<lparr>current_streak = 3, longest_streak = 5,
                       last_prayer_date = Some 158400000, total_prayers = 12\<rparr>
   \<and> local_day (fixed_zone 3600000) 158400000 = local_day (fixed_zone 3600000) 216000000 - 1
   \<and> (\<exists>s'. store.streak (updateStreak (fixed_zone 3600000) 216000000 store_day1)
       = Some s'
           \<and> current_streak s' = 4 \<and> longest_streak s' = 5)"
proof -
  let ?s = "\<lparr>current_streak = 3, longest_streak = 5,
              last_prayer_date = Some 158400000, total_prayers = 12\<rparr>"
  have h1: "store.streak store_day1 = Some ?s" by (simp add: store_day1_def)
  have h2: "last_prayer_date ?s = Some 158400000" by simp
  have h3: "local_day (fixed_zone 3600000) 158400000 = local_day (fixed_zone 3600000) 216000000 - 1"
    by (simp add: local_day_fixed msPerDay_def)
  have h4: "Prayer.prayer_name ` set (getTodaysPrayers (fixed_zone 3600000) 216000000 store_day1)
              \<subseteq> set DAILY_PRAYERS"
    by (simp add: today_store_day1 day2_five_def DAILY_PRAYERS_def)
  have h5: "set DAILY_PRAYERS
              \<subseteq> Prayer.prayer_name ` set (getTodaysPrayers
                  (fixed_zone 3600000) 216000000 store_day1)"
    by (simp add: today_store_day1 day2_five_def DAILY_PRAYERS_def)
  from service_consecutive_day_advances [OF h1 h2 h3 local_day_yesterday h4 h5] h1 h3
  show ?thesis by auto
qed

lemma today_store_1_april:
  "getTodaysPrayers berlin_2024 1711924200000 store_1_april = take 5 (prayers store_1_april)"
  by (simp add: getTodaysPrayers_def store_1_april_def startOfDay_def endOfDay_def
      local_day_def berlin_2024_def msPerDay_def)

text \<open>
  Claim C1, streak continuity. In Berlin the day of 31 March 2024 has 23 hours. At 00:30 on
  1 April the streak record was last advanced at 21:00 on 31 March, the local day before
  today, and each of the five prayers is logged today, once. The instant 24 hours before
  now is 23:30 on 30 March, two local days before today: \<open>updateStreak\<close> takes the record
  for one with a gap and stores the \<open>current_streak\<close> 1, where continuity gives 2, and
  \<open>longest_streak\<close> stays 1.
\<close>

theorem streak_reset_after_short_day:
  "store.streak store_1_april
     = Some \<lparr>current_streak = 1, longest_streak = 1,
              last_prayer_date = Some 1711911600000, total_prayers = 5\<rparr>
   \<and> local_day berlin_2024 1711911600000 = local_day berlin_2024 1711924200000 - 1
   \<and> map Prayer.prayer_name (getTodaysPrayers berlin_2024 1711924200000 store_1_april)
       = [''Isha'', ''Maghrib'', ''Asr'', ''Dhuhr'', ''Fajr'']
   \<and> local_day berlin_2024 (1711924200000 - 24 * 60 * 60 * 1000)
       = local_day berlin_2024 1711924200000 - 2
   \<and> store.streak (updateStreak berlin_2024 1711924200000 store_1_april)
       = Some \<lparr>current_streak = 1, longest_streak = 1,
                last_prayer_date = Some 1711924200000, total_prayers = 10\<rparr>"
proof -
  have d: "local_day berlin_2024 1711911600000 = 19813"
    "local_day berlin_2024 1711924200000 = 19814"
    "local_day berlin_2024 (1711924200000 - 24 * 60 * 60 * 1000) = 19812"
    by (simp_all add: local_day_def berlin_2024_def msPerDay_def)
  have n: "map Prayer.prayer_name (getTodaysPrayers berlin_2024 1711924200000 store_1_april)
             = [''Isha'', ''Maghrib'', ''Asr'', ''Dhuhr'', ''Fajr'']"
    by (simp add: today_store_1_april) (simp add: store_1_april_def)
  have s: "set_size [''Isha'', ''Maghrib'', ''Asr'', ''Dhuhr'', ''Fajr''] = 5"
    by (simp add: set_size_def)
  have g: "getOrCreateStreak store_1_april
             = (\<lparr>current_streak = 1, longest_streak = 1,
                  last_prayer_date = Some 1711911600000, total_prayers = 5\<rparr>, store_1_april)"
    by (simp add: getOrCreateStreak_def store_1_april_def)
  have t: "getTotalPrayerCount store_1_april = 10"
    by (simp add: getTotalPrayerCount_def store_1_april_def)
  have u: "store.streak (updateStreak berlin_2024 1711924200000 store_1_april)
       = Some \<lparr>current_streak = 1, longest_streak = 1,
                last_prayer_date = Some 1711924200000, total_prayers = 10\<rparr>"
    using d by (simp add: updateStreak_def Let_def g n s t)
  show ?thesis using d n u by (simp add: store_1_april_def)
qed

section \<open>The invariant of the streak record\<close>

lemma updateStreak_keeps_order:
  assumes "current_streak s \<le> longest_streak s"
    and "store.streak st = Some s"
    and "store.streak (updateStreak tz now st) = Some s'"
  shows "current_streak s' \<le> longest_streak s'"
  using assms
  by (auto simp: updateStreak_def getOrCreateStreak_def Let_def split: if_splits option.splits)

lemma hook_updateStreak_keeps_order:
  assumes "hook_PrayerStreak.currentStreak (hook_state.streak h)
             \<le> hook_PrayerStreak.longestStreak (hook_state.streak h)"
  shows "hook_PrayerStreak.currentStreak (usePrayerData_updateStreak tz now name h)
         \<le> hook_PrayerStreak.longestStreak (usePrayerData_updateStreak tz now name h)"
  using assms by (simp add: usePrayerData_updateStreak_def Let_def)

text \<open>
  On a store without a streak record \<open>updateStreak\<close> first creates the record, and then
  goes on as it does on the store that holds it.
\<close>

lemma updateStreak_on_new_store:
  assumes "store.streak st = None"
  shows "updateStreak tz now st = updateStreak tz now (st\<lparr>store.streak := Some defaultStreak\<rparr>)"
  using assms
  by (simp add: updateStreak_def getOrCreateStreak_def getTodaysPrayers_def
      getTotalPrayerCount_def)

text \<open>
  Claim C6, the invariant of the streak record. Every streak record of the service that can
  arise from the lazily created one through updates has \<open>longest_streak\<close> at least
  \<open>current_streak\<close>, and so has every streak of the hook that can arise from its initial
  state.
\<close>

theorem streak_invariant:
  "(reachable_streak s \<longrightarrow> current_streak s \<le> longest_streak s)
   \<and> (hook_reachable_streak h \<longrightarrow>
        hook_PrayerStreak.currentStreak h \<le> hook_PrayerStreak.longestStreak h)"
proof
  show "reachable_streak s \<longrightarrow> current_streak s \<le> longest_streak s"
  proof
    assume "reachable_streak s"
    then show "current_streak s \<le> longest_streak s"
    proof (induction rule: reachable_streak.induct)
      case created
      show ?case by (simp add: defaultStreak_def)
    next
      case (updated s st tz now s')
      then show ?case using updateStreak_keeps_order by blast
    qed
  qed
next
  show "hook_reachable_streak h \<longrightarrow>
        hook_PrayerStreak.currentStreak h \<le> hook_PrayerStreak.longestStreak h"
  proof
    assume "hook_reachable_streak h"
    then show "hook_PrayerStreak.currentStreak h \<le> hook_PrayerStreak.longestStreak h"
    proof (induction rule: hook_reachable_streak.induct)
      case initial
      show ?case by (simp add: hook_initial_def)
    next
      case (updated h tz now name)
      from updated.IH show ?case by (rule hook_updateStreak_keeps_order)
    qed
  qed
qed

lemma today_day2_five:
  "getTodaysPrayers (fixed_zone 3600000) 216000000 \<lparr>prayers = day2_five, store.streak
      = Some s\<rparr> = day2_five"
  by (simp add: getTodaysPrayers_def day2_five_def startOfDay_fixed endOfDay_fixed
      local_day_fixed msPerDay_def)

lemma set_size_day2_five: "set_size (map Prayer.prayer_name day2_five) = 5"
  by (simp add: set_size_def day2_five_def)

lemma first_update:
  "store.streak \<lparr>prayers = day2_five, store.streak = Some defaultStreak\<rparr>
     = Some defaultStreak
   \<and> store.streak (updateStreak (fixed_zone 3600000) 216000000
       \<lparr>prayers = day2_five, store.streak = Some defaultStreak\<rparr>)
   = Some \<lparr>current_streak = 1, longest_streak = 1, last_prayer_date = Some 216000000,
           total_prayers = 5\<rparr>"
  by (simp add: updateStreak_def getOrCreateStreak_def getTotalPrayerCount_def Let_def
      today_day2_five set_size_day2_five defaultStreak_def)
     (simp add: day2_five_def)

lemma hook_day2_state:
  "hook_state.streak hook_day2 = \<lparr>hook_PrayerStreak.currentStreak = 1,
      hook_PrayerStreak.longestStreak = 1, lastPrayerDate = Some 2\<rparr>"
  by (simp add: hook_day2_def usePrayerData_logPrayer_def usePrayerData_updateStreak_def
      hook_initial_def set_size_def local_day_def msPerDay_def Let_def)

theorem streak_invariant_witness:
  "reachable_streak \<lparr>current_streak = 1, longest_streak = 1,
       last_prayer_date = Some 216000000, total_prayers = 5\<rparr>
   \<and> current_streak \<lparr>current_streak = 1, longest_streak = 1,
         last_prayer_date = Some 216000000, total_prayers = 5\<rparr>
       \<le> longest_streak \<lparr>current_streak = 1, longest_streak = 1,
         last_prayer_date = Some 216000000, total_prayers = 5\<rparr>
   \<and> hook_reachable_streak (hook_state.streak hook_day2)
   \<and> hook_PrayerStreak.currentStreak (hook_state.streak hook_day2)
       \<le> hook_PrayerStreak.longestStreak (hook_state.streak hook_day2)"
proof -
  let ?s = "\<lparr>current_streak = 1, longest_streak = 1,
       last_prayer_date = Some 216000000, total_prayers = 5\<rparr>"
  have r: "reachable_streak ?s"
    using reachable_streak.updated [OF reachable_streak.created]  first_update by blast
  have "hook_reachable_streak (hook_state.streak hook_day2)"
    unfolding hook_day2_def usePrayerData_logPrayer_def Let_def
    by (simp add: hook_reachable_streak.intros)
  then show ?thesis
    using r streak_invariant [of ?s "hook_state.streak hook_day2"] by simp
qed

section \<open>Logging again on a completed day, and after a gap\<close>

text \<open>
  The service, on a day on which its streak record was already advanced, where the instant
  24 hours before now is on the local day before today: whatever is logged,
  \<open>current_streak\<close> stays as it is, and the store holds one prayer more.
\<close>

lemma service_same_day_keeps_streak:
  assumes "store.streak st = Some s"
    and "last_prayer_date s = Some lastDate"
    and "local_day tz lastDate = local_day tz now"
    and "local_day tz (now - 24 * 60 * 60 * 1000) = local_day tz now - 1"
  shows "\<exists>s'. store.streak (snd (logPrayer tz now name startTime endTime st)) = Some s'
           \<and> current_streak s' = current_streak s"
    and "length (prayers (snd (logPrayer tz now name startTime endTime st)))
           = length (prayers st) + 1"
  using assms
  by (auto simp: logPrayer_def updateStreak_def getOrCreateStreak_def Let_def)

lemma now_within_today: "startOfDay (fixed_zone tz) now \<le> now \<and> now
    \<le> endOfDay (fixed_zone tz) now"
proof -
  have "(now + tz) div msPerDay * msPerDay + (now + tz) mod msPerDay = now + tz"
    by simp
  moreover have "0 \<le> (now + tz) mod msPerDay" "(now + tz) mod msPerDay < msPerDay"
    by (simp_all add: msPerDay_def)
  ultimately show ?thesis
    unfolding startOfDay_fixed endOfDay_fixed local_day_fixed by linarith
qed

text \<open>
  The service, on a day completed with a duplicate log, in a zone of fixed offset: the
  record's \<open>total_prayers\<close> is the number of prayers in the store, one more than before
  the log.
\<close>

lemma service_duplicate_counts:
  assumes "store.streak st = Some s"
    and "Prayer.prayer_name ` set (getTodaysPrayers (fixed_zone tz) now st) = set DAILY_PRAYERS"
    and "name \<in> set DAILY_PRAYERS"
  shows "\<exists>s'. store.streak (snd (logPrayer
      (fixed_zone tz) now name startTime endTime st)) = Some s'
           \<and> total_prayers s' = int (length (prayers st)) + 1"
proof -
  let ?p = "\<lparr>Prayer.prayer_name = name, logged_at = now,
             duration_minutes = (case (startTime, endTime) of
               (Some s, Some e) \<Rightarrow> Some (Math_round (real_of_int (e - s) / (1000 * 60)))
             | _ \<Rightarrow> None)\<rparr>"
  let ?st = "st\<lparr>prayers := ?p # prayers st\<rparr>"
  have now_in: "startOfDay (fixed_zone tz) now \<le> now \<and> now
      \<le> endOfDay (fixed_zone tz) now"
    by (rule now_within_today)
  have "getTodaysPrayers (fixed_zone tz) now ?st = ?p # getTodaysPrayers (fixed_zone tz) now st"
    using now_in by (simp add: getTodaysPrayers_def Let_def)
  then have "Prayer.prayer_name ` set (getTodaysPrayers (fixed_zone tz) now ?st)
      = set DAILY_PRAYERS"
    using assms(2,3) by auto
  then have "set_size (map Prayer.prayer_name (getTodaysPrayers (fixed_zone tz) now ?st)) = 5"
    by (intro completed_five) simp_all
  moreover have "getOrCreateStreak ?st = (s, ?st)"
    using assms(1) by (simp add: getOrCreateStreak_def)
  ultimately show ?thesis
    by (simp add: logPrayer_def updateStreak_def getTotalPrayerCount_def Let_def)
qed

text \<open>
  The service, on a day completed two or more days after the record was last advanced, where
  the instant 24 hours before now is on the local day before today: \<open>current_streak\<close>
  becomes 1.
\<close>

lemma service_gap_resets:
  assumes "store.streak st = Some s"
    and "last_prayer_date s = Some lastDate"
    and "local_day tz lastDate \<le> local_day tz now - 2"
    and "local_day tz (now - 24 * 60 * 60 * 1000) = local_day tz now - 1"
    and "Prayer.prayer_name ` set (getTodaysPrayers tz now st) \<subseteq> set DAILY_PRAYERS"
    and "set DAILY_PRAYERS \<subseteq> Prayer.prayer_name ` set (getTodaysPrayers tz now st)"
  shows "\<exists>s'. store.streak (updateStreak tz now st) = Some s' \<and> current_streak s' = 1"
proof -
  have c: "set_size (map Prayer.prayer_name (getTodaysPrayers tz now st)) = 5"
    using assms(5,6) by (rule completed_five)
  have g: "getOrCreateStreak st = (s, st)"
    using assms(1) by (simp add: getOrCreateStreak_def)
  show ?thesis
    using c g assms(2,3,4)
    by (simp add: updateStreak_def Let_def)
qed

text \<open>
  Claim C2, no second advance within a day, on the hook. In \<open>hook_day2\<close> the five prayers
  are logged on local day 2 and the streak, 1, was advanced on that day. Logging Fajr once
  more ten minutes later adds one log and advances \<open>currentStreak\<close> to 2:
  \<open>updateStreak\<close> of the hook never reads \<open>lastPrayerDate\<close>.
\<close>

theorem hook_advances_twice_a_day:
  "hook_state.streak hook_day2
     = \<lparr>hook_PrayerStreak.currentStreak = 1, hook_PrayerStreak.longestStreak = 1,
        lastPrayerDate = Some (local_day (fixed_zone 3600000) 216600000)\<rparr>
   \<and> set DAILY_PRAYERS = PrayerLog.prayerName `
         set (filter (\<lambda>log. local_day (fixed_zone 3600000) (loggedAt log)
             = local_day (fixed_zone 3600000) 216600000)
                (prayerLogs hook_day2))
   \<and> length (prayerLogs (usePrayerData_logPrayer (fixed_zone 3600000) 216600000 ''Fajr'' None hook_day2))
       = length (prayerLogs hook_day2) + 1
   \<and> hook_PrayerStreak.currentStreak
       (hook_state.streak (usePrayerData_logPrayer (fixed_zone 3600000) 216600000 ''Fajr'' None hook_day2))
       = 2"
  by (simp add: hook_day2_def usePrayerData_logPrayer_def usePrayerData_updateStreak_def
      hook_initial_def set_size_def local_day_fixed msPerDay_def Let_def DAILY_PRAYERS_def)
     auto

text \<open>
  Claim C3, the reset after a gap, on the hook. In \<open>hook_day9\<close> the streak of 3 was last
  advanced on local day 2, and four prayers are logged on local day 9. Logging Isha, the
  fifth, makes \<open>currentStreak\<close> 4, not 1.
\<close>

theorem hook_keeps_streak_after_gap:
  "lastPrayerDate (hook_state.streak hook_day9)
      = Some (local_day (fixed_zone 3600000) 820800000 - 7)
   \<and> hook_PrayerStreak.currentStreak (hook_state.streak hook_day9) = 3
   \<and> set DAILY_PRAYERS = PrayerLog.prayerName `
         set (filter (\<lambda>log. local_day (fixed_zone 3600000) (loggedAt log)
             = local_day (fixed_zone 3600000) 820800000)
                (prayerLogs (usePrayerData_logPrayer (fixed_zone 3600000) 820800000 ''Isha'' None hook_day9)))
   \<and> hook_PrayerStreak.currentStreak
       (hook_state.streak (usePrayerData_logPrayer (fixed_zone 3600000) 820800000 ''Isha'' None hook_day9))
       = 4"
  by (simp add: hook_day9_def usePrayerData_logPrayer_def usePrayerData_updateStreak_def
      set_size_def local_day_fixed msPerDay_def Let_def DAILY_PRAYERS_def)
     auto

section \<open>The statistics of the service\<close>

lemma local_day_shift:
  "local_day (fixed_zone tz) (startOfDay (fixed_zone tz) t + k * msPerDay)
     = local_day (fixed_zone tz) t + k"
  by (simp add: startOfDay_fixed local_day_fixed msPerDay_def)

lemma local_day_end_shift:
  "local_day (fixed_zone tz) (endOfDay (fixed_zone tz) t + k * msPerDay)
     = local_day (fixed_zone tz) t + k"
proof -
  define d where "d = local_day (fixed_zone tz) t"
  have "endOfDay (fixed_zone tz) t + k * msPerDay + tz = (msPerDay - 1) + (d + k) * msPerDay"
    by (simp add: endOfDay_fixed startOfDay_fixed d_def algebra_simps)
  then have "(endOfDay (fixed_zone tz) t + k * msPerDay + tz) div msPerDay
               = ((msPerDay - 1) + (d + k) * msPerDay) div msPerDay"
    by (rule arg_cong)
  also have "\<dots> = d + k"
    by (simp add: msPerDay_def)
  finally show ?thesis
    unfolding d_def local_day_fixed [of tz "endOfDay (fixed_zone tz) t + k * msPerDay"] .
qed

lemma daysInWeek_eq:
  "eachDayOfInterval (fixed_zone tz) (startOfWeek (fixed_zone tz) now)
       (endOfWeek (fixed_zone tz) now)
     = map (\<lambda>d. d * msPerDay - tz)
         [local_day (fixed_zone tz) now - getDay (fixed_zone tz) now ..
          local_day (fixed_zone tz) now - getDay (fixed_zone tz) now + 6]"
proof -
  have s: "local_day (fixed_zone tz) (startOfWeek (fixed_zone tz) now)
      = local_day (fixed_zone tz) now - getDay (fixed_zone tz) now"
    using local_day_shift [of tz now "- getDay (fixed_zone tz) now"]
        by (simp add: startOfWeek_fixed)
  have e: "local_day (fixed_zone tz) (endOfWeek (fixed_zone tz) now)
      = local_day (fixed_zone tz) now - getDay (fixed_zone tz) now + 6"
    using local_day_end_shift [of tz now "6 - getDay (fixed_zone tz) now"]
        by (simp add: endOfWeek_fixed)
  show ?thesis by (simp add: eachDayOfInterval_fixed s e)
qed

lemma length_daysInWeek:
  "length (eachDayOfInterval (fixed_zone tz) (startOfWeek (fixed_zone tz) now) (endOfWeek
      (fixed_zone tz) now)) = 7"
  by (simp add: daysInWeek_eq)

text \<open>
  The week has seven days in every zone in which a local time set on a calendar day is given
  an instant of that day.
\<close>

lemma length_daysInWeek_zone:
  assumes "\<And>l. local_day tz (instant_of tz l) = l div msPerDay"
  shows "length (eachDayOfInterval tz (startOfWeek tz now) (endOfWeek tz now)) = 7"
proof -
  define d where "d = local_day tz now - getDay tz now"
  have "((d + 6) * msPerDay + msPerDay - 1) div msPerDay = d + 6"
    by (simp add: msPerDay_def)
  then have e: "local_day tz (endOfWeek tz now) = d + 6"
    by (simp add: endOfWeek_def assms d_def algebra_simps)
  have s: "local_day tz (startOfWeek tz now) = d"
    by (simp add: startOfWeek_def assms d_def msPerDay_def)
  show ?thesis by (simp add: eachDayOfInterval_def s e)
qed

lemma defaultStats_fields:
  assumes "\<And>l. local_day tz (instant_of tz l) = l div msPerDay"
  shows "PrayerStats.totalPrayers (defaultStats tz now) = 0
   \<and> PrayerStats.currentStreak (defaultStats tz now) = 0
   \<and> PrayerStats.longestStreak (defaultStats tz now) = 0
   \<and> averageDuration (defaultStats tz now) = 0
   \<and> completionRate (defaultStats tz now) = 0
   \<and> length (weeklyStats (defaultStats tz now)) = 7
   \<and> list_all (\<lambda>day. completed day = 0 \<and> total day = 5) (weeklyStats (defaultStats tz now))"
  by (simp add: defaultStats_def Let_def length_daysInWeek_zone [OF assms] list_all_iff)

lemma div_eq_iff_bounds:
  fixes x d m :: int
  assumes "0 < m"
  shows "x div m = d \<longleftrightarrow> d * m \<le> x \<and> x < d * m + m"
proof
  assume h: "x div m = d"
  have "x div m * m + x mod m = x" by simp
  then have "d * m + x mod m = x" unfolding h .
  moreover have "0 \<le> x mod m" "x mod m < m" using assms by simp_all
  ultimately show "d * m \<le> x \<and> x < d * m + m" by linarith
next
  assume a: "d * m \<le> x \<and> x < d * m + m"
  then have "0 \<le> x - d * m" "x - d * m < m" by simp_all
  then have z: "(x - d * m) div m = 0" by simp
  have "m \<noteq> 0" using assms by simp
  then have "((x - d * m) + d * m) div m = d + (x - d * m) div m"
    by (rule div_mult_self1)
  then show "x div m = d" using z by simp
qed


text \<open>
  So it is in Berlin in the spring of 2024: a local time of the hour that was left out on
  31 March is given an instant of that day.
\<close>

lemma berlin_keeps_days:
  "local_day berlin_2024 (instant_of berlin_2024 l) = l div msPerDay"
proof -
  consider (before) "l < 1711850400000"
    | (gap) "1711850400000 \<le> l" "l < 1711854000000"
    | (after) "1711854000000 \<le> l"
    by linarith
  then show ?thesis
  proof cases
    case before
    then show ?thesis by (simp add: local_day_def berlin_2024_def)
  next
    case after
    then show ?thesis by (simp add: local_day_def berlin_2024_def)
  next
    case gap
    have "l div 86400000 = 19813" "(l + 3600000) div 86400000 = 19813"
      using gap by (simp_all add: div_eq_iff_bounds)
    with gap show ?thesis by (simp add: local_day_def berlin_2024_def msPerDay_def)
  qed
qed

lemma default_week_in_berlin: "length (weeklyStats (defaultStats berlin_2024 now)) = 7"
  using defaultStats_fields [OF berlin_keeps_days] by simp

text \<open>An error of \<open>getCurrentUserId\<close>, which is awaited before the \<open>try\<close>, is passed on.\<close>

lemma stats_auth_error_passed_on:
  "getPrayerStats tz now (Inl e) history streakRecord = Inl e"
  by (simp add: getPrayerStats_def)










section \<open>The completion rate\<close>














section \<open>The due-check of the service\<close>

lemma currentDay_eq:
  "(if getDay tz now = 0 then 7 else getDay tz now) = day_of_week tz now"
proof -
  define r where "r = (local_day tz now + 3) mod 7"
  have "(local_day tz now + 4) mod 7 = (r + 1) mod 7"
    unfolding r_def by (simp add: mod_simps add.commute)
  moreover have "0 \<le> r" "r < 7" by (simp_all add: r_def)
  ultimately show ?thesis
    unfolding getDay_def day_of_week_def r_def [symmetric]
    by (cases "r = 6") simp_all
qed

lemma day_of_week_range: "1 \<le> day_of_week tz now \<and> day_of_week tz now \<le> 7"
  by (simp add: day_of_week_def)

lemma split_comma_field:
  assumes "CHR '','' \<notin> set f"
  shows "split_comma f = [f]" and "split_comma (f @ CHR '','' # rest) = f # split_comma rest"
  using assms by (induction f) auto

lemma split_join_comma:
  assumes "fs \<noteq> []" and "list_all (\<lambda>f. CHR '','' \<notin> set f) fs"
  shows "split_comma (join_comma fs) = fs"
  using assms
proof (induction fs rule: join_comma.induct)
  case 1
  then show ?case by simp
next
  case (2 f)
  then show ?case by (simp add: split_comma_field)
next
  case (3 f g fs)
  then show ?case by (simp add: split_comma_field)
qed

lemma small_days: "n \<in> {1..7} \<longleftrightarrow> n \<in> set [1, 2, 3, 4, 5, 6, 7 :: nat]"
  by auto

lemma toString_digit: "n < 10 \<Longrightarrow> toString n = [digit_char n]"
  by (subst toString.simps) simp

lemma parseInt_digit:
  "parseInt ''1'' = Some 1" "parseInt ''2'' = Some 2" "parseInt ''3'' = Some 3"
  "parseInt ''4'' = Some 4" "parseInt ''5'' = Some 5" "parseInt ''6'' = Some 6"
  "parseInt ''7'' = Some 7"
  by code_simp+

lemma toString_day:
  assumes "n \<in> {1..7}"
  shows "CHR '','' \<notin> set (toString n)" and "parseInt (toString n) = Some (int n)"
proof -
  have n: "n \<in> set [1, 2, 3, 4, 5, 6, 7 :: nat]" using assms by (simp only: small_days)
  then have t: "toString n = [digit_char n]" by (intro toString_digit) auto
  show "CHR '','' \<notin> set (toString n)"
    unfolding t using n by (auto simp: digit_char_def)
  show "parseInt (toString n) = Some (int n)"
    unfolding t using n by (auto simp: digit_char_def parseInt_digit)
qed

lemma parsed_days:
  assumes "set ds \<subseteq> {1..7}"
  shows "Some d \<in> set (map parseInt (split_comma (days_string ds))) \<longleftrightarrow> d \<in> int ` set ds"
proof (cases "ds = []")
  case True
  then show ?thesis by (simp add: days_string_def parseInt_def)
next
  case False
  have "list_all (\<lambda>f. CHR '','' \<notin> set f) (map toString ds)"
    using assms toString_day(1) by (auto simp: list_all_iff)
  then have "split_comma (days_string ds) = map toString ds"
    using False by (simp add: days_string_def split_join_comma)
  moreover have "map parseInt (map toString ds) = map (\<lambda>n. Some (int n)) ds"
    using assms toString_day(2) by auto
  ultimately show ?thesis by auto
qed

lemma Number_flag:
  "Number ''0'' = Some 0" "Number ''1'' = Some 1"
  by code_simp+

lemma digit_char_code: "n < 10 \<Longrightarrow> of_char (digit_char n) = 48 + n"
proof -
  assume "n < 10"
  then have "n \<in> set [0, 1, 2, 3, 4, 5, 6, 7, 8, 9]" by auto
  then show ?thesis by (auto simp: digit_char_def)
qed

lemma digit_char_inj:
  assumes "a < 10" and "b < 10"
  shows "digit_char a = digit_char b \<longleftrightarrow> a = b"
proof
  assume "digit_char a = digit_char b"
  then have "(of_char (digit_char a) :: nat) = of_char (digit_char b)" by simp
  then show "a = b" using assms by (simp add: digit_char_code)
qed simp

lemma two_digits:
  assumes "n < 100"
  shows "padStart (toString n) 2 CHR ''0'' = [digit_char (n div 10), digit_char (n mod 10)]"
proof (cases "n < 10")
  case True
  then show ?thesis by (simp add: toString_digit padStart_def digit_char_def)
next
  case False
  then have "toString n = toString (n div 10) @ [digit_char (n mod 10)]"
    by (subst toString.simps) simp
  moreover have "n div 10 < 10" using assms by simp
  ultimately show ?thesis by (simp add: toString_digit padStart_def)
qed

lemma getHours_range: "getHours tz now < 24"
  by (simp add: getHours_def nat_less_iff)

lemma getMinutes_range: "getMinutes tz now < 60"
  by (simp add: getMinutes_def nat_less_iff)

lemma format_HHmm_digits:
  "format_HHmm tz now
     = [digit_char (getHours tz now div 10), digit_char (getHours tz now mod 10), CHR '':'',
        digit_char (getMinutes tz now div 10), digit_char (getMinutes tz now mod 10)]"
proof -
  have "getHours tz now < 100" using getHours_range [of tz now] by simp
  moreover have "getMinutes tz now < 100" using getMinutes_range [of tz now] by simp
  ultimately show ?thesis by (simp add: format_HHmm_def two_digits)
qed

text \<open>The printed time tells the hour and the minute: two instants print alike only in the
  same minute of the day.\<close>

lemma format_HHmm_inj:
  "format_HHmm tz a = format_HHmm tz' b
     \<longleftrightarrow> getHours tz a = getHours tz' b \<and> getMinutes tz a = getMinutes tz' b"
proof
  assume e: "format_HHmm tz a = format_HHmm tz' b"
  have ha: "getHours tz a div 10 < 10" "getHours tz a mod 10 < 10"
    and hb: "getHours tz' b div 10 < 10" "getHours tz' b mod 10 < 10"
    using getHours_range [of tz a] getHours_range [of tz' b] by simp_all
  have ma: "getMinutes tz a div 10 < 10" "getMinutes tz a mod 10 < 10"
    and mb: "getMinutes tz' b div 10 < 10" "getMinutes tz' b mod 10 < 10"
    using getMinutes_range [of tz a] getMinutes_range [of tz' b] by simp_all
  from e have "getHours tz a div 10 = getHours tz' b div 10"
    "getHours tz a mod 10 = getHours tz' b mod 10"
    "getMinutes tz a div 10 = getMinutes tz' b div 10"
    "getMinutes tz a mod 10 = getMinutes tz' b mod 10"
    using ha hb ma mb by (simp_all add: format_HHmm_digits digit_char_inj)
  then show "getHours tz a = getHours tz' b \<and> getMinutes tz a = getMinutes tz' b"
    by (metis div_mult_mod_eq)
next
  assume "getHours tz a = getHours tz' b \<and> getMinutes tz a = getMinutes tz' b"
  then show "format_HHmm tz a = format_HHmm tz' b" by (simp add: format_HHmm_def)
qed

lemma format_at_0530: "format_HHmm (fixed_zone 3600000) at_0530 = ''05:30''"
  by (simp add: format_HHmm_digits getHours_fixed getMinutes_fixed at_0530_def digit_char_def)

lemma due_iff:
  assumes "is_enabled r = ''0'' \<or> is_enabled r = ''1''"
    and "days_of_week r = days_string ds"
    and "set ds \<subseteq> {1..7}"
  shows "r \<in> set (checkForDueReminders tz now reminders) \<longleftrightarrow>
           r \<in> set reminders \<and> is_enabled r = ''1'' \<and> day_of_week tz now \<in> int ` set ds
           \<and> reminder_time r = format_HHmm tz now"
proof -
  have d: "Some (day_of_week tz now) \<in> set (map parseInt (split_comma (days_of_week r)))
             \<longleftrightarrow> day_of_week tz now \<in> int ` set ds"
    unfolding assms(2) using assms(3) by (rule parsed_days)
  have e: "Number (is_enabled r) = Some 0 \<longleftrightarrow> is_enabled r \<noteq> ''1''"
    using assms(1) by (auto simp: Number_flag)
  show ?thesis
    unfolding checkForDueReminders_def Let_def currentDay_eq
    using d e by auto
qed

text \<open>
  Claim C4, the due-check is exact. For a reminder whose \<open>is_enabled\<close> is \<open>"0"\<close> or \<open>"1"\<close>
  and whose \<open>days_of_week\<close> writes the days \<open>ds\<close>, each from 1 to 7: \<open>checkForDueReminders\<close>
  selects it from a list exactly when it is in the list, \<open>is_enabled\<close> is \<open>"1"\<close>, the current
  day of the week, Monday 1 to Sunday 7, is one of \<open>ds\<close>, and \<open>reminder_time\<close> is the
  current local time printed as hours and minutes. A reminder for \<open>05:30\<close> is not selected
  when the local time is 05:29 or 05:31.
\<close>

theorem due_check_exact:
  assumes "is_enabled r = ''0'' \<or> is_enabled r = ''1''"
    and "days_of_week r = days_string ds"
    and "set ds \<subseteq> {1..7}"
  shows "(r \<in> set (checkForDueReminders tz now reminders) \<longleftrightarrow>
            r \<in> set reminders \<and> is_enabled r = ''1'' \<and> day_of_week tz now \<in> int ` set ds
            \<and> reminder_time r = format_HHmm tz now)
         \<and> (reminder_time r = ''05:30'' \<and> getHours tz now = 5
              \<and> (getMinutes tz now = 29 \<or> getMinutes tz now = 31)
             \<longrightarrow> r \<notin> set (checkForDueReminders tz now reminders))"
proof
  show "r \<in> set (checkForDueReminders tz now reminders) \<longleftrightarrow>
            r \<in> set reminders \<and> is_enabled r = ''1'' \<and> day_of_week tz now \<in> int ` set ds
            \<and> reminder_time r = format_HHmm tz now"
    using assms by (rule due_iff)
next
  have m: "getMinutes (fixed_zone 3600000) at_0530 = 30" "getHours (fixed_zone 3600000) at_0530 = 5"
    by (simp_all add: getMinutes_fixed getHours_fixed at_0530_def)
  show "reminder_time r = ''05:30'' \<and> getHours tz now = 5
              \<and> (getMinutes tz now = 29 \<or> getMinutes tz now = 31)
             \<longrightarrow> r \<notin> set (checkForDueReminders tz now reminders)"
  proof (intro impI notI)
    assume a: "reminder_time r = ''05:30'' \<and> getHours tz now = 5
              \<and> (getMinutes tz now = 29 \<or> getMinutes tz now = 31)"
      and "r \<in> set (checkForDueReminders tz now reminders)"
    then have "format_HHmm tz now = ''05:30''"
      using due_iff [OF assms] by simp
    then have "getMinutes tz now = 30"
      using m by (simp add: format_at_0530 [symmetric] format_HHmm_inj)
    with a show False by auto
  qed
qed

theorem due_check_exact_witness:
  "is_enabled fajr_reminder = ''1''
   \<and> days_of_week fajr_reminder = days_string [1, 2, 3, 4, 5, 6, 7]
   \<and> set [1, 2, 3, 4, 5, 6, 7 :: nat] \<subseteq> {1..7}
   \<and> day_of_week (fixed_zone 3600000) at_0530 = 6
   \<and> fajr_reminder \<in> set (checkForDueReminders
       (fixed_zone 3600000) at_0530 [fajr_reminder])
   \<and> getHours (fixed_zone 3600000) (at_0530 - 60000) = 5
       \<and> getMinutes (fixed_zone 3600000) (at_0530 - 60000) = 29
   \<and> fajr_reminder \<notin> set (checkForDueReminders (fixed_zone 3600000)
       (at_0530 - 60000) [fajr_reminder])
   \<and> getHours (fixed_zone 3600000) (at_0530 + 60000) = 5
       \<and> getMinutes (fixed_zone 3600000) (at_0530 + 60000) = 31
   \<and> fajr_reminder \<notin> set (checkForDueReminders (fixed_zone 3600000)
       (at_0530 + 60000) [fajr_reminder])"
proof -
  have h1: "is_enabled fajr_reminder = ''0'' \<or> is_enabled fajr_reminder = ''1''"
    by (simp add: fajr_reminder_def)
  have h2: "days_of_week fajr_reminder = days_string [1, 2, 3, 4, 5, 6, 7]"
    by (simp add: fajr_reminder_def days_string_def toString_digit digit_char_def)
  have h3: "set [1, 2, 3, 4, 5, 6, 7 :: nat] \<subseteq> {1..7}"
    by simp
  have d: "day_of_week (fixed_zone 3600000) at_0530 = 6"
    by (simp add: day_of_week_def local_day_fixed msPerDay_def at_0530_def)
  have t: "reminder_time fajr_reminder = ''05:30''" "is_enabled fajr_reminder = ''1''"
    by (simp_all add: fajr_reminder_def)
  have b: "getHours (fixed_zone 3600000) (at_0530 - 60000)
      = 5" "getMinutes (fixed_zone 3600000) (at_0530 - 60000) = 29"
    and a: "getHours (fixed_zone 3600000) (at_0530 + 60000)
        = 5" "getMinutes (fixed_zone 3600000) (at_0530 + 60000) = 31"
    by (simp_all add: getHours_fixed getMinutes_fixed at_0530_def)
  have w1: "fajr_reminder \<in> set (checkForDueReminders
      (fixed_zone 3600000) at_0530 [fajr_reminder])"
    using due_check_exact [OF h1 h2 h3, of "fixed_zone 3600000" at_0530 "[fajr_reminder]", THEN
        conjunct1]
      d t format_at_0530
    by simp
  have w2: "fajr_reminder \<notin> set (checkForDueReminders (fixed_zone 3600000)
      (at_0530 - 60000) [fajr_reminder])"
    using due_check_exact [OF h1 h2 h3, of "fixed_zone 3600000" "at_0530 - 60000" "[fajr_reminder]",
        THEN conjunct2] t b
    by simp
  have w3: "fajr_reminder \<notin> set (checkForDueReminders (fixed_zone 3600000)
      (at_0530 + 60000) [fajr_reminder])"
    using due_check_exact [OF h1 h2 h3, of "fixed_zone 3600000" "at_0530 + 60000" "[fajr_reminder]",
        THEN conjunct2] t a
    by simp
  from t(2) h2 h3 d w1 b w2 a w3 show ?thesis by blast
qed

section \<open>The notifications of the hook\<close>

lemma checkReminders_format:
  "checkReminders tz now reminders notifiedToday
     = checkReminders_forEach (format_HHmm tz now) reminders notifiedToday"
  by (simp add: checkReminders_def format_HHmm_def)

lemma forEach_shown:
  assumes "checkReminders_forEach ct rs N = (shown, N')"
  shows "N' = N \<union> (\<lambda>r. hook_PrayerReminder.prayerName r @ ''_'' @ ct) ` set shown
         \<and> distinct (map hook_PrayerReminder.prayerName shown)
         \<and> (\<forall>r \<in> set shown. hook_PrayerReminder.prayerName r @ ''_'' @ ct \<notin> N
                \<and> reminderTime r = ct \<and> isEnabled r \<and> r \<in> set rs)"
  using assms
proof (induction rs arbitrary: N shown N')
  case Nil
  then show ?case by simp
next
  case (Cons r rs)
  show ?case
  proof (cases "isEnabled r \<and> reminderTime r = ct
                 \<and> hook_PrayerReminder.prayerName r @ ''_'' @ ct \<notin> N")
    case True
    obtain shown1 N1 where
      rec: "checkReminders_forEach ct rs
              (insert (hook_PrayerReminder.prayerName r @ ''_'' @ ct) N) = (shown1, N1)"
      by (cases "checkReminders_forEach ct rs
              (insert (hook_PrayerReminder.prayerName r @ ''_'' @ ct) N)")
    with True Cons.prems have s: "shown = r # shown1" and n: "N' = N1"
      by simp_all
    from Cons.IH [OF rec] True show ?thesis
      unfolding s n by auto
  next
    case False
    with Cons.prems have "checkReminders_forEach ct rs N = (shown, N')"
      by (auto split: if_splits)
    from Cons.IH [OF this] show ?thesis by auto
  qed
qed


text \<open>
  The reminders of the hook carry no days of the week. With nothing notified for them yet
  and prayer names that differ, a due-check shows exactly the enabled reminders whose time is
  the current time, on every day.
\<close>

lemma hook_check_fresh:
  assumes "distinct (map hook_PrayerReminder.prayerName rs)"
    and "(\<lambda>r. hook_PrayerReminder.prayerName r @ ''_'' @ ct) ` set rs \<inter> N = {}"
  shows "fst (checkReminders_forEach ct rs N)
           = filter (\<lambda>r. isEnabled r \<and> reminderTime r = ct) rs"
  using assms
proof (induction rs arbitrary: N)
  case Nil
  show ?case by simp
next
  case (Cons r rs)
  let ?k = "hook_PrayerReminder.prayerName r @ ''_'' @ ct"
  have fresh: "?k \<notin> N" using Cons.prems(2) by auto
  have d: "distinct (map hook_PrayerReminder.prayerName rs)" using Cons.prems(1) by simp
  have rest: "(\<lambda>r. hook_PrayerReminder.prayerName r @ ''_'' @ ct) ` set rs \<inter> N = {}"
    using Cons.prems(2) by auto
  have rest': "(\<lambda>r. hook_PrayerReminder.prayerName r @ ''_'' @ ct) ` set rs \<inter> insert ?k N = {}"
    using rest Cons.prems(1) by auto
  show ?case
    using Cons.IH [OF d rest] Cons.IH [OF d rest'] fresh
    by (simp add: case_prod_unfold)
qed

lemma distinct_map_outer: "distinct (map (\<lambda>x. g (f x)) xs) \<Longrightarrow> distinct (map f xs)"
  by (induction xs) auto

lemma run_checks_keys:
  "distinct (map (\<lambda>(r, t). hook_PrayerReminder.prayerName r @ ''_'' @ format_HHmm tz t)
       (run tz (map (\<lambda>(t, rs). Check t rs) checks) N))
   \<and> (\<lambda>(r, t). hook_PrayerReminder.prayerName r @ ''_'' @ format_HHmm tz t)
         ` set (run tz (map (\<lambda>(t, rs). Check t rs) checks) N) \<inter> N = {}"
proof (induction checks arbitrary: N)
  case Nil
  show ?case by simp
next
  case (Cons c checks)
  obtain t rs where c: "c = (t, rs)" by (cases c)
  obtain shown N1 where
    f: "checkReminders_forEach (format_HHmm tz t) rs N = (shown, N1)"
    by (cases "checkReminders_forEach (format_HHmm tz t) rs N")
  define key where
    "key = (\<lambda>(r :: hook_PrayerReminder, t).
              hook_PrayerReminder.prayerName r @ ''_'' @ format_HHmm tz t)"
  define key1 where
    "key1 = (\<lambda>r :: hook_PrayerReminder.
               hook_PrayerReminder.prayerName r @ ''_'' @ format_HHmm tz t)"
  define rest where "rest = run tz (map (\<lambda>(t, rs). Check t rs) checks) N1"
  have out: "run tz (map (\<lambda>(t, rs). Check t rs) (c # checks)) N
               = map (\<lambda>r. (r, t)) shown @ rest"
    by (simp add: c checkReminders_format f rest_def)
  have s: "N1 = N \<union> key1 ` set shown" "distinct (map hook_PrayerReminder.prayerName shown)"
    "key1 ` set shown \<inter> N = {}"
    using forEach_shown [OF f] unfolding key1_def by auto
  have first: "map key (map (\<lambda>r. (r, t)) shown) = map key1 shown"
    by (simp add: key_def key1_def)
  have "inj_on key1 (set shown)"
    using s(2) by (auto simp: key1_def inj_on_def distinct_map)
  with s(2) have d1: "distinct (map key1 shown)"
    by (simp add: distinct_map)
  have d2: "distinct (map key rest)" and fresh: "key ` set rest \<inter> N1 = {}"
    using Cons.IH [of N1] unfolding key_def rest_def by simp_all
  have apart: "set (map key1 shown) \<inter> set (map key rest) = {}"
    using fresh s(1) by auto
  have "distinct (map key (map (\<lambda>r. (r, t)) shown @ rest))"
    unfolding map_append first using d1 d2 apart by simp
  moreover have "key ` set (map (\<lambda>r. (r, t)) shown @ rest) \<inter> N = {}"
  proof -
    have "key ` set (map (\<lambda>r. (r, t)) shown) = key1 ` set shown"
      by (auto simp: key_def key1_def)
    then have "key ` set (map (\<lambda>r. (r, t)) shown @ rest) = key1 ` set shown \<union> key ` set rest"
      by (simp add: image_Un)
    moreover have "key ` set rest \<inter> N = {}" using fresh s(1) by blast
    ultimately show ?thesis using s(3) by blast
  qed
  ultimately show ?case unfolding out key_def by simp
qed




text \<open>
  The key tells the prayer name and the time apart: the time printed has five characters,
  so two keys are equal only when both parts are.
\<close>

lemma reminderKey_inj:
  "n @ ''_'' @ format_HHmm tz t = n' @ ''_'' @ format_HHmm tz' t'
     \<longleftrightarrow> n = n' \<and> format_HHmm tz t = format_HHmm tz' t'"
proof -
  have "length (''_'' @ format_HHmm tz t) = length (''_'' @ format_HHmm tz' t')"
    by (simp add: format_HHmm_digits)
  then show ?thesis by (metis append_eq_append_conv same_append_eq)
qed











lemma format_at_0530_later: "format_HHmm (fixed_zone 3600000) (at_0530 + 20000) = ''05:30''"
  by (simp add: format_HHmm_digits getHours_fixed getMinutes_fixed at_0530_def digit_char_def)


lemma run_twice_at_0530:
  "run (fixed_zone 3600000)
     [Check at_0530 default_reminders, Check (at_0530 + 20000) default_reminders] {}
     = [(hd default_reminders, at_0530)]"
  by (simp add: checkReminders_format format_at_0530 format_at_0530_later
      default_reminders_def)





section \<open>The most prayed time\<close>

lemma count_up_keys:
  "map fst (count_up k es) = (if k \<in> fst ` set es then map fst es else map fst es @ [k])"
  by (induction es) (auto split: if_splits)

lemma count_up_lookup:
  "distinct (map fst es) \<Longrightarrow>
     map_of (count_up k es) = (map_of es)(k \<mapsto> (case map_of es k of None \<Rightarrow> 1 | Some c \<Rightarrow> c + 1))"
proof (induction es)
  case Nil
  show ?case by simp
next
  case (Cons e es)
  obtain k' c where e: "e = (k', c)" by (cases e)
  show ?case
  proof (cases "k = k'")
    case True
    then show ?thesis by (auto simp: e fun_eq_iff)
  next
    case False
    with Cons show ?thesis by (auto simp: e fun_eq_iff)
  qed
qed

lemma prayerCounts_snoc:
  "prayerCounts (logs @ [l]) = count_up (PrayerLog.prayerName l) (prayerCounts logs)"
  by (simp add: prayerCounts_def)

lemma prayerCounts_keys:
  "map fst (prayerCounts logs) = rev (remdups (rev (map PrayerLog.prayerName logs)))"
proof (induction logs rule: rev_induct)
  case Nil
  show ?case by (simp add: prayerCounts_def)
next
  case (snoc l logs)
  have "fst ` set (prayerCounts logs) = PrayerLog.prayerName ` set logs"
    using snoc by (metis set_map set_remdups set_rev)
  then show ?case
    using snoc by (simp add: prayerCounts_snoc count_up_keys)
qed

lemma prayerCounts_distinct: "distinct (map fst (prayerCounts logs))"
  by (simp add: prayerCounts_keys)

lemma prayerCounts_lookup:
  "map_of (prayerCounts logs) k
     = (if k \<in> PrayerLog.prayerName ` set logs
        then Some (count_list (map PrayerLog.prayerName logs) k) else None)"
proof (induction logs arbitrary: k rule: rev_induct)
  case Nil
  show ?case by (simp add: prayerCounts_def)
next
  case (snoc l logs)
  show ?case
    by (simp add: prayerCounts_snoc count_up_lookup [OF prayerCounts_distinct] snoc)
qed

lemma reduce_last_greatest:
  fixes e :: "string \<times> nat"
  shows "\<exists>pre post. e # es = pre @ foldl (\<lambda>a b. if snd a > snd b then a else b) e es # post
      \<and> (\<forall>x \<in> set pre. snd x \<le> snd (foldl (\<lambda>a b. if snd a > snd b then a else b) e es))
      \<and> (\<forall>x \<in> set post. snd x < snd (foldl (\<lambda>a b. if snd a > snd b then a else b) e es))"
proof (induction es rule: rev_induct)
  case Nil
  have "[e] = [] @ e # []" by simp
  then show ?case by force
next
  case (snoc b es)
  define r where "r = foldl (\<lambda>a b. if snd a > snd b then a else b) e es"
  from snoc obtain pre post where
    split: "e # es = pre @ r # post"
    and le: "\<forall>x \<in> set pre. snd x \<le> snd r"
    and less: "\<forall>x \<in> set post. snd x < snd r"
    unfolding r_def by blast
  have next_r: "foldl (\<lambda>a b. if snd a > snd b then a else b) e (es @ [b])
                  = (if snd r > snd b then r else b)"
    by (simp add: r_def)
  show ?case
  proof (cases "snd r > snd b")
    case True
    have "e # es @ [b] = pre @ r # (post @ [b])" using split by simp
    moreover have "\<forall>x \<in> set (post @ [b]). snd x < snd r" using less True by simp
    ultimately have "\<exists>pre' post'. e # es @ [b] = pre' @ r # post'
        \<and> (\<forall>x \<in> set pre'. snd x \<le> snd r) \<and> (\<forall>x \<in> set post'. snd x < snd r)"
      using le by blast
    then show ?thesis unfolding next_r using True by simp
  next
    case False
    have "e # es @ [b] = (e # es) @ b # []" by simp
    moreover have "\<forall>x \<in> set (e # es). snd x \<le> snd b"
    proof
      fix x assume "x \<in> set (e # es)"
      then have "x \<in> set pre \<or> x = r \<or> x \<in> set post" unfolding split by auto
      then have "snd x \<le> snd r" using le less by (auto intro: less_imp_le)
      with False show "snd x \<le> snd b" by simp
    qed
    moreover have "\<forall>x \<in> set ([] :: (string \<times> nat) list). snd x < snd b" by simp
    ultimately have "\<exists>pre' post'. e # es @ [b] = pre' @ b # post'
        \<and> (\<forall>x \<in> set pre'. snd x \<le> snd b) \<and> (\<forall>x \<in> set post'. snd x < snd b)"
      by blast
    then show ?thesis unfolding next_r using False by simp
  qed
qed

lemma remdups_append_filter:
  "remdups (xs @ ys) = remdups [x \<leftarrow> xs. x \<notin> set ys] @ remdups ys"
  by (induction xs) auto

lemma first_seen_split:
  assumes "n \<notin> set pre"
  shows "rev (remdups (rev (pre @ n # post)))
           = rev (remdups (rev pre)) @ n # rev (remdups [x \<leftarrow> rev post. x \<notin> set (n # pre)])"
proof -
  have "remdups (rev post @ (n # rev pre))
          = remdups [x \<leftarrow> rev post. x \<notin> set (n # rev pre)] @ remdups (n # rev pre)"
    by (rule remdups_append_filter)
  moreover have "remdups (n # rev pre) = n # remdups (rev pre)"
    using assms by simp
  ultimately show ?thesis by simp
qed

lemma takeWhile_until: "a \<notin> set xs \<Longrightarrow> takeWhile (\<lambda>x. x \<noteq> a) (xs @ a # ys) = xs"
  by (induction xs) auto

lemma distinct_split_unique:
  assumes "distinct (xs @ a # ys)" and "xs @ a # ys = xs' @ a # ys'"
  shows "xs = xs'"
proof -
  have "a \<notin> set xs" using assms(1) by simp
  moreover have "a \<notin> set xs'" using assms by simp
  ultimately show ?thesis
    using assms(2) takeWhile_until [of a xs ys] takeWhile_until [of a xs' ys'] by simp
qed

lemma entries_before:
  assumes "prayerCounts logs = epre @ (n, c) # epost"
  shows "\<exists>pre post. map PrayerLog.prayerName logs = pre @ n # post \<and> n \<notin> set pre
           \<and> fst ` set epre = set pre"
proof -
  let ?ns = "map PrayerLog.prayerName logs"
  have keys: "map fst epre @ n # map fst epost = rev (remdups (rev ?ns))"
    using prayerCounts_keys [of logs] assms by simp
  then have "n \<in> set (rev (remdups (rev ?ns)))"
    by (metis in_set_conv_decomp)
  then have "n \<in> set ?ns" by simp
  then obtain pre post where ns: "?ns = pre @ n # post" and fresh: "n \<notin> set pre"
    by (meson split_list_first)
  have "map fst epre @ n # map fst epost
          = rev (remdups (rev pre)) @ n # rev (remdups [x \<leftarrow> rev post. x \<notin> set (n # pre)])"
    using keys first_seen_split [OF fresh, of post] unfolding ns by simp
  moreover have "distinct (map fst epre @ n # map fst epost)"
    unfolding keys by simp
  ultimately have "map fst epre = rev (remdups (rev pre))"
    by (rule distinct_split_unique [rotated])
  then have "set (map fst epre) = set pre" by simp
  then show ?thesis using ns fresh by auto
qed

lemma entry_count:
  assumes "(k, c) \<in> set (prayerCounts logs)"
  shows "k \<in> PrayerLog.prayerName ` set logs"
    and "c = count_list (map PrayerLog.prayerName logs) k"
proof -
  have "map_of (prayerCounts logs) k = Some c"
    using assms prayerCounts_distinct by (simp add: map_of_eq_Some_iff)
  then show "k \<in> PrayerLog.prayerName ` set logs"
    and "c = count_list (map PrayerLog.prayerName logs) k"
    by (simp_all add: prayerCounts_lookup split: if_splits)
qed

lemma name_has_entry:
  assumes "k \<in> PrayerLog.prayerName ` set logs"
  shows "(k, count_list (map PrayerLog.prayerName logs) k) \<in> set (prayerCounts logs)"
  using assms map_of_SomeD [of "prayerCounts logs" k] by (simp add: prayerCounts_lookup)

lemma most_prayed_last_of_ties:
  assumes "logs \<noteq> []"
  shows "\<exists>n pre post.
           usePrayerData_getMostPrayedTime logs = Inr (if n = [] then ''None'' else n)
           \<and> map PrayerLog.prayerName logs = pre @ n # post \<and> n \<notin> set pre
           \<and> (\<forall>k. count_list (map PrayerLog.prayerName logs) k
                     \<le> count_list (map PrayerLog.prayerName logs) n)
           \<and> (\<forall>k. k \<noteq> n \<and> count_list (map PrayerLog.prayerName logs) k
                               = count_list (map PrayerLog.prayerName logs) n
                  \<longrightarrow> k \<in> set pre)"
proof -
  let ?ns = "map PrayerLog.prayerName logs"
  let ?cnt = "count_list ?ns"
  have "map fst (prayerCounts logs) \<noteq> []"
    using assms by (simp add: prayerCounts_keys)
  then obtain e es where pc: "prayerCounts logs = e # es"
    by (cases "prayerCounts logs") auto
  define r where "r = foldl (\<lambda>a b. if snd a > snd b then a else b) e es"
  obtain epre epost where
    split: "e # es = epre @ r # epost"
    and le: "\<forall>x \<in> set epre. snd x \<le> snd r"
    and less: "\<forall>x \<in> set epost. snd x < snd r"
    using reduce_last_greatest [of e es] unfolding r_def by blast
  obtain n c where r: "r = (n, c)" by (cases r)
  have res: "usePrayerData_getMostPrayedTime logs = Inr (if n = [] then ''None'' else n)"
    by (simp add: usePrayerData_getMostPrayedTime_def pc r_def [symmetric] r)
  have entries: "prayerCounts logs = epre @ (n, c) # epost"
    using pc split r by simp
  then have "(n, c) \<in> set (prayerCounts logs)" by simp
  then have c: "c = ?cnt n" and n_in: "n \<in> PrayerLog.prayerName ` set logs"
    using entry_count by blast+
  obtain pre post where ns: "?ns = pre @ n # post" and fresh: "n \<notin> set pre"
    and before: "fst ` set epre = set pre"
    using entries_before [OF entries] by blast
  have place: "(k, ?cnt k) \<in> set epre \<or> k = n \<or> (k, ?cnt k) \<in> set epost"
    if "k \<in> PrayerLog.prayerName ` set logs" for k
    using name_has_entry [OF that] unfolding entries by auto
  have greatest: "?cnt k \<le> ?cnt n" for k
  proof (cases "k \<in> PrayerLog.prayerName ` set logs")
    case True
    from place [OF True] show ?thesis
      using le less r c by (auto intro: less_imp_le)
  next
    case False
    then show ?thesis by simp
  qed
  have ties: "k \<in> set pre" if "k \<noteq> n" and "?cnt k = ?cnt n" for k
  proof -
    have "?cnt n \<noteq> 0" using n_in by (simp add: count_list_0_iff)
    then have "0 < ?cnt n" by simp
    with that(2) have "k \<in> PrayerLog.prayerName ` set logs"
      by (metis count_list_0_iff less_irrefl set_map)
    from place [OF this] that(1) have "(k, ?cnt k) \<in> set epre \<or> (k, ?cnt k) \<in> set epost"
      by simp
    moreover have "(k, ?cnt k) \<notin> set epost"
      using less r c that(2) by auto
    ultimately have "k \<in> fst ` set epre" by force
    then show ?thesis unfolding before .
  qed
  show ?thesis using res ns fresh greatest ties by blast
qed

lemma daily_name_not_empty: "n \<in> set DAILY_PRAYERS \<Longrightarrow> n \<noteq> []"
  by (auto simp: DAILY_PRAYERS_def)

text \<open>
  Claim C8, the most prayed time, as the code has it. The logs of the monthly window are
  not empty and carry names among the five. Then \<open>mostPrayedTime\<close> is a name of the window
  with the highest count, and every other name with the same count was met before it in the
  list of logs: among equals, the name met last is returned.
\<close>

theorem most_prayed_time_last_of_ties:
  assumes "monthlyLogs = filter (\<lambda>log. loggedAt log \<ge> monthAgo) (prayerLogs h)"
    and "monthlyLogs \<noteq> []"
    and "PrayerLog.prayerName ` set monthlyLogs \<subseteq> set DAILY_PRAYERS"
  shows "\<exists>stats pre post.
           usePrayerData_getMonthlyStats monthAgo h = Inr stats
           \<and> map PrayerLog.prayerName monthlyLogs = pre @ mostPrayedTime stats # post
           \<and> mostPrayedTime stats \<notin> set pre
           \<and> (\<forall>k. count_list (map PrayerLog.prayerName monthlyLogs) k
                     \<le> count_list (map PrayerLog.prayerName monthlyLogs) (mostPrayedTime stats))
           \<and> (\<forall>k. k \<noteq> mostPrayedTime stats
                    \<and> count_list (map PrayerLog.prayerName monthlyLogs) k
                        = count_list (map PrayerLog.prayerName monthlyLogs) (mostPrayedTime stats)
                  \<longrightarrow> k \<in> set pre)"
proof -
  let ?cnt = "count_list (map PrayerLog.prayerName monthlyLogs)"
  obtain n pre post where
    res: "usePrayerData_getMostPrayedTime monthlyLogs = Inr (if n = [] then ''None'' else n)"
    and ns: "map PrayerLog.prayerName monthlyLogs = pre @ n # post" and fresh: "n \<notin> set pre"
    and greatest: "\<forall>k. ?cnt k \<le> ?cnt n"
    and ties: "\<forall>k. k \<noteq> n \<and> ?cnt k = ?cnt n \<longrightarrow> k \<in> set pre"
    using most_prayed_last_of_ties [OF assms(2)] by blast
  have "n \<in> set (map PrayerLog.prayerName monthlyLogs)" unfolding ns by simp
  then have "n \<in> set DAILY_PRAYERS" using assms(3) by auto
  then have "n \<noteq> []" by (rule daily_name_not_empty)
  with res have res': "usePrayerData_getMostPrayedTime monthlyLogs = Inr n" by simp
  define stats where "stats =
     \<lparr>monthly_stats.totalPrayers = length monthlyLogs,
      averagePerDay = real (length monthlyLogs) / 30,
      mostPrayedTime = n,
      totalDuration = foldl (\<lambda>sum log. sum + or_zero (durationMinutes log)) 0 monthlyLogs\<rparr>"
  have "usePrayerData_getMonthlyStats monthAgo h = Inr stats"
    using res' by (simp add: usePrayerData_getMonthlyStats_def assms(1) [symmetric] stats_def)
  moreover have "mostPrayedTime stats = n" by (simp add: stats_def)
  ultimately show ?thesis using ns fresh greatest ties by blast
qed

text \<open>On an empty window \<open>reduce\<close> throws, and so does \<open>getMonthlyStats\<close>.\<close>

lemma most_prayed_time_empty_window:
  assumes "filter (\<lambda>log. loggedAt log \<ge> monthAgo) (prayerLogs h) = []"
  shows "usePrayerData_getMonthlyStats monthAgo h = Inl TypeError"
  using assms
  by (simp add: usePrayerData_getMonthlyStats_def usePrayerData_getMostPrayedTime_def
      prayerCounts_def)

lemma two_logs_most_prayed:
  "usePrayerData_getMonthlyStats 0 \<lparr>prayerLogs = two_logs, hook_state.streak = s\<rparr>
     = Inr \<lparr>monthly_stats.totalPrayers = 2, averagePerDay = 2 / 30,
            mostPrayedTime = ''Dhuhr'', totalDuration = 0\<rparr>"
  by (simp add: usePrayerData_getMonthlyStats_def usePrayerData_getMostPrayedTime_def
      prayerCounts_def two_logs_def or_zero_def truthy_def)

theorem most_prayed_time_last_of_ties_witness:
  "two_logs = filter (\<lambda>log. loggedAt log \<ge> 0)
                (prayerLogs \<lparr>prayerLogs = two_logs,
                              hook_state.streak = hook_state.streak hook_initial\<rparr>)
   \<and> two_logs \<noteq> []
   \<and> PrayerLog.prayerName ` set two_logs \<subseteq> set DAILY_PRAYERS
   \<and> (\<exists>stats pre post.
         usePrayerData_getMonthlyStats 0
           \<lparr>prayerLogs = two_logs, hook_state.streak = hook_state.streak hook_initial\<rparr>
           = Inr stats
         \<and> mostPrayedTime stats = ''Dhuhr''
         \<and> map PrayerLog.prayerName two_logs = pre @ mostPrayedTime stats # post
         \<and> mostPrayedTime stats \<notin> set pre
         \<and> ''Fajr'' \<in> set pre)"
proof -
  let ?h = "\<lparr>prayerLogs = two_logs, hook_state.streak = hook_state.streak hook_initial\<rparr>"
  have h1: "two_logs = filter (\<lambda>log. loggedAt log \<ge> 0) (prayerLogs ?h)"
    by (simp add: two_logs_def)
  have h2: "two_logs \<noteq> []"
    by (simp add: two_logs_def)
  have h3: "PrayerLog.prayerName ` set two_logs \<subseteq> set DAILY_PRAYERS"
    by (simp add: two_logs_def DAILY_PRAYERS_def)
  have tie: "count_list (map PrayerLog.prayerName two_logs) ''Fajr''
               = count_list (map PrayerLog.prayerName two_logs) ''Dhuhr''"
    by (simp add: two_logs_def)
  from most_prayed_time_last_of_ties [OF h1 h2 h3]
  obtain stats pre post where
    r: "usePrayerData_getMonthlyStats 0 ?h = Inr stats"
    and s: "map PrayerLog.prayerName two_logs = pre @ mostPrayedTime stats # post"
      "mostPrayedTime stats \<notin> set pre"
    and t: "\<forall>k. k \<noteq> mostPrayedTime stats
                    \<and> count_list (map PrayerLog.prayerName two_logs) k
                        = count_list (map PrayerLog.prayerName two_logs) (mostPrayedTime stats)
                  \<longrightarrow> k \<in> set pre"
    by blast
  have m: "mostPrayedTime stats = ''Dhuhr''"
    using r two_logs_most_prayed [of "hook_state.streak hook_initial"] by auto
  have "''Fajr'' \<in> set pre"
    using t tie unfolding m by auto
  with r s m h1 h2 h3 show ?thesis by blast
qed

text \<open>
  The claim as it is written fails on \<open>two_logs\<close>: Fajr and Dhuhr are logged once each, Fajr
  is met first, and \<open>mostPrayedTime\<close> is Dhuhr.
\<close>

theorem most_prayed_time_first_of_ties_counterexample:
  "\<exists>stats.
     usePrayerData_getMonthlyStats 0
       \<lparr>prayerLogs = two_logs, hook_state.streak = hook_state.streak hook_initial\<rparr>
       = Inr stats
     \<and> count_list (map PrayerLog.prayerName two_logs) ''Fajr''
         = count_list (map PrayerLog.prayerName two_logs) (mostPrayedTime stats)
     \<and> hd (map PrayerLog.prayerName two_logs) = ''Fajr''
     \<and> mostPrayedTime stats \<noteq> ''Fajr''"
  by (simp add: two_logs_most_prayed) (simp add: two_logs_def)

end
